theory Spec2Isabelle
  imports Main "HOL-Library.Sublist"
begin

section \<open>JavaScript values\<close>

text \<open>
  A class object is identified by a name that stands for it: two class objects have two
  names. A JavaScript value is kept as far as the code
  looks at it: the conditions of the source test values for truthiness, so the falsy
  values (\<open>undefined\<close>, \<open>null\<close>, \<open>false\<close>, \<open>0\<close>, the empty string) are
  told apart from the truthy ones. Objects and arrays are always truthy.
\<close>

type_synonym tname = string

datatype jsval = JUndefined | JNull | JBool bool | JNum int | JStr string | JObj string

fun truthy :: "jsval \<Rightarrow> bool" where
  "truthy JUndefined = False"
| "truthy JNull = False"
| "truthy (JBool b) = b"
| "truthy (JNum n) = (n \<noteq> 0)"
| "truthy (JStr s) = (s \<noteq> [])"
| "truthy (JObj _) = True"

text \<open>
  A thrown value is either an instance of \<open>Error\<close> (its class name, its message and its
  stack, which may be missing) or any other value.
\<close>

datatype thrown = ErrorObj string string "string option" | NonError jsval

section \<open>The auto-discovery scanner (src/core/auto-discovery.helper.ts)\<close>

text \<open>
  An exported value is a function (with its name and whether its \<open>prototype\<close> property
  is truthy: classes and ordinary functions have one, arrow functions do not) or some
  other value. Reading a property of the exports object can itself throw (a getter), so
  each property carries the outcome of reading it. \<open>requireFn\<close> either throws or
  returns the exports; \<open>reflectorInst.get(key, target)\<close> returns a value. The metadata of
  a class is taken not to change while a scan runs.
\<close>

datatype exported = JFunction tname bool | JOther jsval

type_synonym module_exports = "(string \<times> (thrown + exported)) list"

type_synonym require_fn = "string \<Rightarrow> thrown + module_exports"

type_synonym reflector = "string \<Rightarrow> tname \<Rightarrow> jsval"

record DiscoveredComponents =
  providers :: "tname list"
  controllers :: "tname list"

record glob_options =
  ignore :: "string list"
  absolute :: bool

text \<open>
  The body of the inner loop for one exported value that was read: the two \<open>push\<close>
  calls of the source, on the pair (providers, controllers).
\<close>

fun classify :: "reflector \<Rightarrow> exported \<Rightarrow> tname list \<times> tname list \<Rightarrow> tname list \<times> tname list" where
  "classify reflectorInst (JFunction exportedClass True) (ps, cs) =
     (if truthy (reflectorInst ''path'' exportedClass) then (ps, cs @ [exportedClass])
      else if truthy (reflectorInst ''__injectable__'' exportedClass) then (ps @ [exportedClass], cs)
      else (ps, cs))"
| "classify reflectorInst (JFunction exportedClass False) acc = acc"
| "classify reflectorInst (JOther v) acc = acc"

text \<open>
  The \<open>for (const key in exports)\<close> loop. It runs inside the \<open>try\<close> block: when reading
  a property throws, the loop is left with what was pushed so far and the exception.
\<close>

fun scan_exports :: "reflector \<Rightarrow> module_exports \<Rightarrow> tname list \<times> tname list
    \<Rightarrow> (tname list \<times> tname list) \<times> thrown option" where
  "scan_exports reflectorInst [] acc = (acc, None)"
| "scan_exports reflectorInst ((key, Inl e) # rest) acc = (acc, Some e)"
| "scan_exports reflectorInst ((key, Inr v) # rest) acc =
     scan_exports reflectorInst rest (classify reflectorInst v acc)"

text \<open>The body of the \<open>try\<close> block for one file.\<close>

definition try_file :: "reflector \<Rightarrow> require_fn \<Rightarrow> string \<Rightarrow> tname list \<times> tname list
    \<Rightarrow> (tname list \<times> tname list) \<times> thrown option" where
  "try_file reflectorInst requireFn file acc =
     (case requireFn file of
        Inl e \<Rightarrow> (acc, Some e)
      | Inr exports \<Rightarrow> scan_exports reflectorInst exports acc)"

text \<open>
  The \<open>for (const file of files)\<close> loop: the \<open>catch\<close> clause is empty, so whatever the
  \<open>try\<close> block threw is dropped and the loop goes on with the next file.
\<close>

fun scan_files :: "reflector \<Rightarrow> require_fn \<Rightarrow> string list \<Rightarrow> tname list \<times> tname list
    \<Rightarrow> tname list \<times> tname list" where
  "scan_files reflectorInst requireFn [] acc = acc"
| "scan_files reflectorInst requireFn (file # files) acc =
     scan_files reflectorInst requireFn files (fst (try_file reflectorInst requireFn file acc))"

definition ignore_patterns :: "string list" where
  "ignore_patterns =
     [''**/*.module.{ts,js}'', ''**/*.spec.{ts,js}'', ''**/node_modules/**'',
      ''**/features/**'', ''**/plugins/**'']"

text \<open>
  \<open>join\<close> (of Node's path module) and \<open>globSync\<close> are library functions: they are
  parameters of the model.
\<close>

definition discoverComponents ::
  "(string list \<Rightarrow> string) \<Rightarrow> (string \<Rightarrow> glob_options \<Rightarrow> string list)
    \<Rightarrow> string \<Rightarrow> reflector \<Rightarrow> require_fn \<Rightarrow> DiscoveredComponents" where
  "discoverComponents join globSync basePath reflectorInst requireFn =
     (let files = globSync (join [basePath, ''**/*.{ts,js}''])
                    \<lparr>ignore = ignore_patterns, absolute = True\<rparr>;
          (ps, cs) = scan_files reflectorInst requireFn files ([], [])
      in \<lparr>providers = ps, controllers = cs\<rparr>)"

section \<open>The health endpoint (features/health.controller.ts)\<close>

record memory_options =
  heapThreshold :: "int option"
  rssThreshold :: "int option"

record TerminusHealthCheckOptions =
  database :: "bool option"
  memory :: "memory_options option"

text \<open>
  The indicator functions pushed on \<open>checks\<close>: each is a closure over one call of an
  indicator. \<open>HealthCheckService.check\<close> is the library's: it invokes every function it
  is given, so the functions invoked are the list passed to it.
\<close>

datatype indicator_call =
    PingCheck string
  | CheckHeap string int
  | CheckRSS string int

definition check :: "TerminusHealthCheckOptions \<Rightarrow> bool \<Rightarrow> indicator_call list" where
  "check opts db =
     (let checks0 = (if database opts = Some True \<and> db then [PingCheck ''database''] else []);
          checks1 =
            (case memory opts of
               None \<Rightarrow> checks0
             | Some m \<Rightarrow>
                 (let heap = (case heapThreshold m of None \<Rightarrow> 200 | Some h \<Rightarrow> h);
                      rss = (case rssThreshold m of None \<Rightarrow> 300 | Some r \<Rightarrow> r)
                  in checks0 @ [CheckHeap ''memory_heap'' (heap * 1024 * 1024),
                                CheckRSS ''memory_rss'' (rss * 1024 * 1024)]))
      in checks1)"

section \<open>Configuration values of the builder (core/app-initializer.ts)\<close>

text \<open>
  Option objects that the builder only passes on (CORS, versioning, validation-pipe
  options, library options) are property lists. The object spread
  \<open>{...defaults, ...given}\<close> keeps the properties of \<open>defaults\<close>, overwritten in place
  by those of \<open>given\<close>, followed by the new properties of \<open>given\<close>.
\<close>

type_synonym js_object = "(string \<times> jsval) list"

fun assign :: "string \<Rightarrow> jsval \<Rightarrow> js_object \<Rightarrow> js_object" where
  "assign k v [] = [(k, v)]"
| "assign k v ((k', v') # rest) = (if k = k' then (k, v) # rest else (k', v') # assign k v rest)"

definition spread :: "js_object \<Rightarrow> js_object \<Rightarrow> js_object" where
  "spread defaults given = foldl (\<lambda>obj (k, v). assign k v obj) defaults given"

datatype jsnum = Num int | NaN

text \<open>
  \<open>parseInt(s, 10)\<close>: leading white space is skipped, a sign is read, then the longest
  run of decimal digits; with no digit the result is \<open>NaN\<close>.
\<close>

definition is_space :: "char \<Rightarrow> bool" where
  "is_space c = (c \<in> set [CHR '' '', CHR 0x09, CHR 0x0A, CHR 0x0B, CHR 0x0C, CHR 0x0D])"

definition is_digit :: "char \<Rightarrow> bool" where
  "is_digit c = (c \<in> set ''0123456789'')"

definition digits_val :: "string \<Rightarrow> int" where
  "digits_val ds = foldl (\<lambda>n c. 10 * n + (int (of_char c) - 48)) 0 ds"

definition parseInt :: "string \<Rightarrow> jsnum" where
  "parseInt str =
     (let t = dropWhile is_space str;
          (neg, u) = (case t of
                        c # rest \<Rightarrow> if c = CHR ''-'' then (True, rest)
                                   else if c = CHR ''+'' then (False, rest) else (False, t)
                      | [] \<Rightarrow> (False, t));
          ds = takeWhile is_digit u
      in if ds = [] then NaN else Num (if neg then - digits_val ds else digits_val ds))"

datatype AbstractHttpAdapter = HttpAdapter string

datatype provider_token = APP_PIPE | APP_FILTER | APP_GUARD | APP_INTERCEPTOR

text \<open>
  A provider of the composition root: a class, a binding \<open>{provide, useClass}\<close>, or a
  binding \<open>{provide, useValue: new C(options)}\<close>.
\<close>

datatype Provider =
    ClassProvider tname
  | UseClass provider_token tname
  | UseValueNew provider_token tname js_object

datatype AppInitializerPlugin =
    RequestLoggerPlugin
  | RateLimiterPlugin js_object
  | TypeOrmMigrationPlugin
  | CustomPlugin string

fun constructor_name :: "AppInitializerPlugin \<Rightarrow> string" where
  "constructor_name RequestLoggerPlugin = ''RequestLoggerPlugin''"
| "constructor_name (RateLimiterPlugin opts) = ''RateLimiterPlugin''"
| "constructor_name TypeOrmMigrationPlugin = ''TypeOrmMigrationPlugin''"
| "constructor_name (CustomPlugin n) = n"

text \<open>The constructor of \<open>RateLimiterPlugin\<close> (plugins/rate-limiter.plugin.ts).\<close>

definition new_RateLimiterPlugin :: "js_object \<Rightarrow> AppInitializerPlugin" where
  "new_RateLimiterPlugin opts =
     RateLimiterPlugin
       (spread [(''windowMs'', JNum (15 * 60 * 1000)), (''limit'', JNum 100),
                (''statusCode'', JNum 429),
                (''message'', JStr ''Too many requests from this IP, please try again after 15 minutes''),
                (''standardHeaders'', JBool True), (''legacyHeaders'', JBool False)] opts)"

datatype NestInterceptor = InterceptorInstance string | ResponsePatternInterceptor string

text \<open>
  The three closures that the builder pushes on \<open>setupFunctions\<close>:
  \<open>(app) => app.enableShutdownHooks()\<close>, \<open>(app) => app.use(helmet())\<close> and
  \<open>(app) => app.use(compression())\<close>.
\<close>

datatype setup_function = ShutdownHooksSetup | HelmetSetup | CompressionSetup

record SwaggerDocumentTags =
  tag_name :: string
  tag_description :: "string option"

record SwaggerOptions =
  title :: string
  description :: string
  version :: string
  tags :: "SwaggerDocumentTags list option"
  path :: "string option"
  documentOptions :: "js_object option"
  customOptions :: "js_object option"

record advanced_swagger_ui =
  customCss :: "string option"
  customJs :: "string option"

subsection \<open>Starters (starters/*.starter.ts) and feature modules\<close>

record TypeOrmStarterOptions =
  autoLoadEntities :: "bool option"
  runMigrationsOnStartup :: "bool option"
  databaseUrlEnvKey :: "string option"
  typeOrmOptions :: "js_object option"

record MongooseStarterOptions =
  uriEnvKey :: "string option"
  mongooseOptions :: "js_object option"

record CachingStarterOptions =
  redisUrlEnvKey :: "string option"
  defaultTtlInSeconds :: "int option"

text \<open>
  A module of the import list is the root class or the dynamic module that a library
  factory returned; a dynamic module is kept as the factory call with the values its
  configuration closes over.
\<close>

datatype AnyModule =
    TypeModule tname
  | ConfigModule_forRoot tname
  | TerminusHealthCheckModule_forRoot TerminusHealthCheckOptions
  | MetricsModule_forRoot
  | TypeOrmModule_forRootAsync string bool js_object
  | MongooseModule_forRootAsync string js_object
  | CacheModule_registerAsync string int

record typeorm_starter =
  starter_module :: AnyModule
  starter_plugins :: "AppInitializerPlugin list"

definition createTypeOrmStarter :: "TypeOrmStarterOptions \<Rightarrow> typeorm_starter" where
  "createTypeOrmStarter opts =
     (let autoLoad = (case autoLoadEntities opts of None \<Rightarrow> True | Some b \<Rightarrow> b);
          runMigrations = (case runMigrationsOnStartup opts of None \<Rightarrow> False | Some b \<Rightarrow> b);
          urlKey = (case databaseUrlEnvKey opts of None \<Rightarrow> ''DATABASE_URL'' | Some k \<Rightarrow> k);
          extra = (case typeOrmOptions opts of None \<Rightarrow> [] | Some obj \<Rightarrow> obj)
      in \<lparr>starter_module = TypeOrmModule_forRootAsync urlKey autoLoad extra,
          starter_plugins = (if runMigrations then [TypeOrmMigrationPlugin] else [])\<rparr>)"

definition createMongooseStarter :: "MongooseStarterOptions \<Rightarrow> typeorm_starter" where
  "createMongooseStarter opts =
     (let uriKey = (case uriEnvKey opts of None \<Rightarrow> ''MONGO_URI'' | Some k \<Rightarrow> k);
          extra = (case mongooseOptions opts of None \<Rightarrow> [] | Some obj \<Rightarrow> obj)
      in \<lparr>starter_module = MongooseModule_forRootAsync uriKey extra, starter_plugins = []\<rparr>)"

definition createCachingStarter :: "CachingStarterOptions \<Rightarrow> AnyModule" where
  "createCachingStarter opts =
     (let redisKey = (case redisUrlEnvKey opts of None \<Rightarrow> ''REDIS_URL'' | Some k \<Rightarrow> k);
          ttl = (case defaultTtlInSeconds opts of None \<Rightarrow> 300 | Some t \<Rightarrow> t)
      in CacheModule_registerAsync redisKey ttl)"

section \<open>The builder state and the chained configuration calls\<close>

text \<open>
  The fields of \<open>AppInitializer\<close> that the configuration calls and \<open>listen\<close> read and
  write. The application handle \<open>app\<close> is the object the framework calls of \<open>listen\<close>
  are made on; it is represented by the trace of those calls.
\<close>

record BuilderState =
  module :: tname
  adapter :: "AbstractHttpAdapter option"
  port :: jsnum
  globalPrefix :: "string option"
  versioningOptions :: "js_object option"
  corsOptions :: "js_object option"
  swaggerOptions :: "SwaggerOptions option"
  setupFunctions :: "setup_function list"
  plugins :: "AppInitializerPlugin list"
  featureModules :: "AnyModule list"
  advancedSwaggerUiOptions :: "advanced_swagger_ui option"
  autoDiscoveredComponents :: "DiscoveredComponents option"
  globalProviders :: "Provider list"
  globalInterceptors :: "NestInterceptor list"
  factoryGeneratedControllers :: "tname list"

text \<open>
  What the builder reads from its host: the module loader, the metadata reflection, the
  path and glob libraries, \<open>__dirname\<close>, the environment variable \<open>PORT\<close> and the
  stack trace that a new \<open>Error\<close> object captures.
\<close>

record host =
  path_join :: "string list \<Rightarrow> string"
  globSync :: "string \<Rightarrow> glob_options \<Rightarrow> string list"
  node_require :: require_fn
  Reflector_get :: reflector
  dirname :: string
  env_PORT :: "string option"
  stack_trace :: "string option"

text \<open>The field initialisers and the private constructor.\<close>

definition new_AppInitializer :: "host \<Rightarrow> tname \<Rightarrow> AbstractHttpAdapter option \<Rightarrow> BuilderState" where
  "new_AppInitializer H m a =
     \<lparr>module = m, adapter = a,
      port = parseInt (case env_PORT H of None \<Rightarrow> ''3000''
                       | Some v \<Rightarrow> if v = [] then ''3000'' else v),
      globalPrefix = None, versioningOptions = None, corsOptions = None,
      swaggerOptions = None, setupFunctions = [], plugins = [], featureModules = [],
      advancedSwaggerUiOptions = None, autoDiscoveredComponents = None,
      globalProviders = [], globalInterceptors = [], factoryGeneratedControllers = []\<rparr>"

text \<open>
  Each chained method is a function on the state of the builder it is called on; every
  one of them ends in \<open>return this\<close>.
\<close>

definition onPort :: "jsnum \<Rightarrow> BuilderState \<Rightarrow> BuilderState" where
  "onPort p this = this\<lparr>port := p\<rparr>"

definition withPlugin :: "AppInitializerPlugin \<Rightarrow> BuilderState \<Rightarrow> BuilderState" where
  "withPlugin plugin this = this\<lparr>plugins := plugins this @ [plugin]\<rparr>"

definition withVersioning :: "js_object \<Rightarrow> BuilderState \<Rightarrow> BuilderState" where
  "withVersioning opts this = this\<lparr>versioningOptions := Some opts\<rparr>"

definition startsWith_slash :: "string \<Rightarrow> bool" where
  "startsWith_slash str = (case str of [] \<Rightarrow> False | c # rest \<Rightarrow> c = CHR ''/'')"

definition withGlobalPrefix :: "string \<Rightarrow> BuilderState \<Rightarrow> BuilderState" where
  "withGlobalPrefix pfx this =
     this\<lparr>globalPrefix := Some (if startsWith_slash pfx then pfx else ''/'' @ pfx)\<rparr>"

text \<open>\<open>withCors(options = {})\<close>: a call without argument takes the empty object.\<close>

definition withCors :: "js_object option \<Rightarrow> BuilderState \<Rightarrow> BuilderState" where
  "withCors arg this =
     this\<lparr>corsOptions := Some (case arg of None \<Rightarrow> [] | Some opts \<Rightarrow> opts)\<rparr>"

definition withValidationPipe :: "js_object option \<Rightarrow> BuilderState \<Rightarrow> BuilderState" where
  "withValidationPipe arg this =
     (let defaultOptions = [(''whitelist'', JBool True), (''forbidNonWhitelisted'', JBool True),
                            (''transform'', JBool True),
                            (''transformOptions'', JObj ''{enableImplicitConversion: true}'')];
          finalOptions = spread defaultOptions (case arg of None \<Rightarrow> [] | Some opts \<Rightarrow> opts)
      in this\<lparr>globalProviders :=
                 globalProviders this @ [UseValueNew APP_PIPE ''ValidationPipe'' finalOptions]\<rparr>)"

definition useGlobalPipe :: "tname \<Rightarrow> BuilderState \<Rightarrow> BuilderState" where
  "useGlobalPipe pipe this =
     this\<lparr>globalProviders := globalProviders this @ [UseClass APP_PIPE pipe]\<rparr>"

definition useGlobalFilter :: "tname \<Rightarrow> BuilderState \<Rightarrow> BuilderState" where
  "useGlobalFilter filter_class this =
     this\<lparr>globalProviders := globalProviders this @ [UseClass APP_FILTER filter_class]\<rparr>"

definition useGlobalGuard :: "tname \<Rightarrow> BuilderState \<Rightarrow> BuilderState" where
  "useGlobalGuard guard this =
     this\<lparr>globalProviders := globalProviders this @ [UseClass APP_GUARD guard]\<rparr>"

definition useGlobalInterceptor :: "tname \<Rightarrow> BuilderState \<Rightarrow> BuilderState" where
  "useGlobalInterceptor interceptor this =
     this\<lparr>globalProviders := globalProviders this @ [UseClass APP_INTERCEPTOR interceptor]\<rparr>"

definition withClassSerializer :: "BuilderState \<Rightarrow> BuilderState" where
  "withClassSerializer this =
     this\<lparr>globalProviders :=
            globalProviders this @ [UseClass APP_INTERCEPTOR ''ClassSerializerInterceptor'']\<rparr>"

text \<open>\<open>{ path: 'docs', ...options }\<close>: the default path stands unless the options have one.\<close>

definition withSwagger :: "SwaggerOptions \<Rightarrow> BuilderState \<Rightarrow> BuilderState" where
  "withSwagger opts this =
     this\<lparr>swaggerOptions :=
            Some (opts\<lparr>path := (case path opts of None \<Rightarrow> Some ''docs'' | Some p \<Rightarrow> Some p)\<rparr>)\<rparr>"

definition withAdvancedSwaggerUI :: "host \<Rightarrow> BuilderState \<Rightarrow> BuilderState" where
  "withAdvancedSwaggerUI H this =
     this\<lparr>advancedSwaggerUiOptions :=
            Some \<lparr>customCss = Some (path_join H [dirname H, ''swagger-ui-customization'',
                                                 ''swagger-dark-theme.css'']),
                  customJs = Some (path_join H [dirname H, ''swagger-ui-customization'',
                                                ''swagger-custom.js''])\<rparr>\<rparr>"

definition withGracefulShutdown :: "BuilderState \<Rightarrow> BuilderState" where
  "withGracefulShutdown this = this\<lparr>setupFunctions := setupFunctions this @ [ShutdownHooksSetup]\<rparr>"

definition useHelmet :: "BuilderState \<Rightarrow> BuilderState" where
  "useHelmet this = this\<lparr>setupFunctions := setupFunctions this @ [HelmetSetup]\<rparr>"

definition enableCompression :: "BuilderState \<Rightarrow> BuilderState" where
  "enableCompression this = this\<lparr>setupFunctions := setupFunctions this @ [CompressionSetup]\<rparr>"

definition withValidatedConfig :: "tname \<Rightarrow> BuilderState \<Rightarrow> BuilderState" where
  "withValidatedConfig schema this =
     (let configModule = ConfigModule_forRoot schema
      in this\<lparr>featureModules := featureModules this @ [configModule]\<rparr>)"

text \<open>
  \<open>withTypeOrm\<close> pushes the module of the starter, then calls \<open>withPlugin\<close> for each
  plugin of the starter.
\<close>

definition withTypeOrm :: "TypeOrmStarterOptions \<Rightarrow> BuilderState \<Rightarrow> BuilderState" where
  "withTypeOrm opts this =
     (let starter = createTypeOrmStarter opts;
          this1 = this\<lparr>featureModules := featureModules this @ [starter_module starter]\<rparr>
      in foldl (\<lambda>b plugin. withPlugin plugin b) this1 (starter_plugins starter))"

definition withMongoose :: "MongooseStarterOptions \<Rightarrow> BuilderState \<Rightarrow> BuilderState" where
  "withMongoose opts this =
     (let starter = createMongooseStarter opts
      in this\<lparr>featureModules := featureModules this @ [starter_module starter]\<rparr>)"

definition withCaching :: "CachingStarterOptions \<Rightarrow> BuilderState \<Rightarrow> BuilderState" where
  "withCaching opts this =
     (let cacheDynamicModule = createCachingStarter opts
      in this\<lparr>featureModules := featureModules this @ [cacheDynamicModule]\<rparr>)"

definition withHealthCheck :: "TerminusHealthCheckOptions \<Rightarrow> BuilderState \<Rightarrow> BuilderState" where
  "withHealthCheck opts this =
     this\<lparr>featureModules := featureModules this @ [TerminusHealthCheckModule_forRoot opts]\<rparr>"

definition withMetrics :: "BuilderState \<Rightarrow> BuilderState" where
  "withMetrics this = this\<lparr>featureModules := featureModules this @ [MetricsModule_forRoot]\<rparr>"

definition withAutoDiscovery :: "host \<Rightarrow> string \<Rightarrow> BuilderState \<Rightarrow> BuilderState" where
  "withAutoDiscovery H basePath this =
     this\<lparr>autoDiscoveredComponents :=
            Some (discoverComponents (path_join H) (globSync H) basePath
                    (Reflector_get H) (node_require H))\<rparr>"

definition addGlobalInterceptor :: "NestInterceptor \<Rightarrow> BuilderState \<Rightarrow> BuilderState" where
  "addGlobalInterceptor interceptor this =
     this\<lparr>globalInterceptors := globalInterceptors this @ [interceptor]\<rparr>"

definition withResponseMapper :: "string \<Rightarrow> BuilderState \<Rightarrow> BuilderState" where
  "withResponseMapper mapper this =
     this\<lparr>globalInterceptors := globalInterceptors this @ [ResponsePatternInterceptor mapper]\<rparr>"

definition useDevelopmentDefaults :: "SwaggerOptions \<Rightarrow> BuilderState \<Rightarrow> BuilderState" where
  "useDevelopmentDefaults opts this =
     withPlugin RequestLoggerPlugin (withSwagger (opts\<lparr>path := Some ''docs''\<rparr>) this)"

definition useProductionDefaults :: "BuilderState \<Rightarrow> BuilderState" where
  "useProductionDefaults this =
     withPlugin (new_RateLimiterPlugin [])
       (withGracefulShutdown (enableCompression (useHelmet this)))"

text \<open>
  A chained call with its arguments. The callback of \<open>when\<close> receives the builder and
  configures it: it is the list of the calls it makes.
\<close>

datatype config_call =
    UseDevelopmentDefaults SwaggerOptions
  | UseProductionDefaults
  | When bool "config_call list"
  | WithHealthCheck TerminusHealthCheckOptions
  | WithMetrics
  | OnPort jsnum
  | WithPlugin AppInitializerPlugin
  | WithVersioning js_object
  | WithGlobalPrefix string
  | WithCors "js_object option"
  | WithValidationPipe "js_object option"
  | UseGlobalPipe tname
  | UseGlobalFilter tname
  | UseGlobalGuard tname
  | UseGlobalInterceptor tname
  | WithClassSerializer
  | WithSwagger SwaggerOptions
  | WithAdvancedSwaggerUI
  | WithGracefulShutdown
  | UseHelmet
  | EnableCompression
  | WithValidatedConfig tname
  | WithTypeOrm TypeOrmStarterOptions
  | WithMongoose MongooseStarterOptions
  | WithCaching CachingStarterOptions
  | WithAutoDiscovery string
  | AddGlobalInterceptor NestInterceptor
  | WithResponseMapper string

fun invoke :: "host \<Rightarrow> config_call \<Rightarrow> BuilderState \<Rightarrow> BuilderState"
  and invoke_all :: "host \<Rightarrow> config_call list \<Rightarrow> BuilderState \<Rightarrow> BuilderState" where
  "invoke H (UseDevelopmentDefaults opts) this = useDevelopmentDefaults opts this"
| "invoke H UseProductionDefaults this = useProductionDefaults this"
| "invoke H (When condition configure) this =
     (if condition then invoke_all H configure this else this)"
| "invoke H (WithHealthCheck opts) this = withHealthCheck opts this"
| "invoke H WithMetrics this = withMetrics this"
| "invoke H (OnPort p) this = onPort p this"
| "invoke H (WithPlugin plugin) this = withPlugin plugin this"
| "invoke H (WithVersioning opts) this = withVersioning opts this"
| "invoke H (WithGlobalPrefix pfx) this = withGlobalPrefix pfx this"
| "invoke H (WithCors arg) this = withCors arg this"
| "invoke H (WithValidationPipe arg) this = withValidationPipe arg this"
| "invoke H (UseGlobalPipe pipe) this = useGlobalPipe pipe this"
| "invoke H (UseGlobalFilter f) this = useGlobalFilter f this"
| "invoke H (UseGlobalGuard guard) this = useGlobalGuard guard this"
| "invoke H (UseGlobalInterceptor interceptor) this = useGlobalInterceptor interceptor this"
| "invoke H WithClassSerializer this = withClassSerializer this"
| "invoke H (WithSwagger opts) this = withSwagger opts this"
| "invoke H WithAdvancedSwaggerUI this = withAdvancedSwaggerUI H this"
| "invoke H WithGracefulShutdown this = withGracefulShutdown this"
| "invoke H UseHelmet this = useHelmet this"
| "invoke H EnableCompression this = enableCompression this"
| "invoke H (WithValidatedConfig schema) this = withValidatedConfig schema this"
| "invoke H (WithTypeOrm opts) this = withTypeOrm opts this"
| "invoke H (WithMongoose opts) this = withMongoose opts this"
| "invoke H (WithCaching opts) this = withCaching opts this"
| "invoke H (WithAutoDiscovery basePath) this = withAutoDiscovery H basePath this"
| "invoke H (AddGlobalInterceptor interceptor) this = addGlobalInterceptor interceptor this"
| "invoke H (WithResponseMapper mapper) this = withResponseMapper mapper this"
| "invoke_all H [] this = this"
| "invoke_all H (c # cs) this = invoke_all H cs (invoke H c this)"

text \<open>
  Builders are objects: a chained call is made on a reference to a builder, changes the
  state of that builder in place and returns the reference it was called on
  (\<open>return this\<close>), so that the next call of a chain is made on what the previous one
  returned.
\<close>

type_synonym ref = nat

type_synonym store = "ref \<Rightarrow> BuilderState"

definition call_method :: "host \<Rightarrow> config_call \<Rightarrow> ref \<Rightarrow> store \<Rightarrow> ref \<times> store" where
  "call_method H c this \<sigma> = (this, \<sigma>(this := invoke H c (\<sigma> this)))"

fun chain :: "host \<Rightarrow> config_call list \<Rightarrow> ref \<Rightarrow> store \<Rightarrow> ref \<times> store" where
  "chain H [] this \<sigma> = (this, \<sigma>)"
| "chain H (c # cs) this \<sigma> = (case call_method H c this \<sigma> of (returned, \<sigma>') \<Rightarrow> chain H cs returned \<sigma>')"

section \<open>Framework calls, traces and outcomes\<close>

text \<open>
  The metadata of the generated class \<open>DynamicRootModule\<close>: the three lists given to
  \<open>@Module\<close>.
\<close>

record DynamicRootModule =
  rootImports :: "AnyModule list"
  allControllers :: "tname list"
  allProviders :: "Provider list"

datatype middleware = Helmet | Compression

record document_config =
  doc_title :: string
  doc_description :: string
  doc_version :: string
  doc_tags :: "(string \<times> string option) list"

text \<open>The calls that \<open>listen\<close> makes into the framework, the plugins and Swagger.\<close>

datatype fw_call =
    NestFactory_create DynamicRootModule "AbstractHttpAdapter option"
  | App_setGlobalPrefix string
  | App_enableCors js_object
  | App_enableVersioning js_object
  | App_enableShutdownHooks
  | App_use middleware
  | Plugin_apply AppInitializerPlugin
  | App_useGlobalInterceptors NestInterceptor
  | SwaggerModule_createDocument document_config "js_object option"
  | SwaggerModule_setup string "js_object option"
  | App_listen jsnum
  | App_getUrl

datatype log_detail = Stack "string option" | Raw jsval

text \<open>
  What is observed of a run: the log entries, the framework calls with how each ended
  (\<open>Return\<close>: it returned, and the promise it returned, if any, was fulfilled;
  \<open>Raise\<close>: it threw or its promise was rejected; neither: it never came back), and
  the exit of the process.
\<close>

datatype event =
    Log string
  | LogError string log_detail
  | Call fw_call
  | Return fw_call
  | Raise fw_call thrown
  | ProcessExit int

datatype response = Returns | Throws thrown | NeverReturns

text \<open>
  The framework is a parameter: it answers each call, knowing everything that happened
  before, and gives the URL that \<open>getUrl\<close> resolves to.
\<close>

record framework =
  respond :: "event list \<Rightarrow> fw_call \<Rightarrow> response"
  resolved_url :: "event list \<Rightarrow> string"

datatype 'a outcome = Ok 'a | Threw thrown | Hung

type_synonym 'a act = "event list \<Rightarrow> event list \<times> 'a outcome"

definition emit :: "event \<Rightarrow> unit act" where
  "emit e tr = (tr @ [e], Ok ())"

definition skip :: "unit act" where
  "skip tr = (tr, Ok ())"

text \<open>
  A call, awaited where the source awaits it: the statements after it run only once it
  has returned.
\<close>

definition ext :: "framework \<Rightarrow> fw_call \<Rightarrow> unit act" where
  "ext F c tr =
     (case respond F (tr @ [Call c]) c of
        Returns \<Rightarrow> (tr @ [Call c, Return c], Ok ())
      | Throws e \<Rightarrow> (tr @ [Call c, Raise c e], Threw e)
      | NeverReturns \<Rightarrow> (tr @ [Call c], Hung))"

definition and_then :: "'a act \<Rightarrow> ('a \<Rightarrow> 'b act) \<Rightarrow> 'b act" where
  "and_then m f tr =
     (case m tr of
        (tr', Ok x) \<Rightarrow> f x tr'
      | (tr', Threw e) \<Rightarrow> (tr', Threw e)
      | (tr', Hung) \<Rightarrow> (tr', Hung))"

fun seq :: "unit act list \<Rightarrow> unit act" where
  "seq [] tr = (tr, Ok ())"
| "seq (a # as) tr =
     (case a tr of
        (tr', Ok u) \<Rightarrow> seq as tr'
      | (tr', Threw e) \<Rightarrow> (tr', Threw e)
      | (tr', Hung) \<Rightarrow> (tr', Hung))"

subsection \<open>Log messages\<close>

text \<open>The messages of the source, their non-ASCII characters as UTF-8 bytes.\<close>

definition c_cedilla :: string where "c_cedilla = [CHR 0xC3, CHR 0xA7]"
definition a_tilde :: string where "a_tilde = [CHR 0xC3, CHR 0xA3]"
definition a_circumflex :: string where "a_circumflex = [CHR 0xC3, CHR 0xA2]"
definition i_acute :: string where "i_acute = [CHR 0xC3, CHR 0xAD]"
definition rocket :: string where "rocket = [CHR 0xF0, CHR 0x9F, CHR 0x9A, CHR 0x80]"
definition page :: string where "page = [CHR 0xF0, CHR 0x9F, CHR 0x93, CHR 0x84]"

definition aplicacao :: string where
  "aplicacao = ''aplica'' @ c_cedilla @ a_tilde @ ''o''"

definition msg_creating :: string where
  "msg_creating = ''Criando a inst'' @ a_circumflex @ ''ncia da '' @ aplicacao @ '' NestJS...''"

definition msg_plugin :: string where
  "msg_plugin = ''Aplicando o plugin: ''"

definition msg_running :: string where
  "msg_running = rocket @ '' Aplica'' @ c_cedilla @ a_tilde @ ''o rodando em: ''"

definition msg_docs :: string where
  "msg_docs = page @ '' Documenta'' @ c_cedilla @ a_tilde @ ''o Swagger dispon'' @ i_acute @ ''vel em: ''"

definition msg_starting :: string where
  "msg_starting = ''Iniciando o processo de bootstrap da '' @ aplicacao @ ''...''"

definition msg_failed :: string where
  "msg_failed = ''Falha ao inicializar a '' @ aplicacao @ ''. Error: ''"

definition msg_failed_nonstandard :: string where
  "msg_failed_nonstandard =
     ''Falha ao inicializar a '' @ aplicacao @ '' com um erro n'' @ a_tilde @ ''o-padr'' @ a_tilde @ ''o.''"

definition msg_no_configurator :: string where
  "msg_no_configurator =
     ''Fun'' @ c_cedilla @ a_tilde @ ''o de configura'' @ c_cedilla @ a_tilde @
     ''o do bootstrap n'' @ a_tilde @ ''o encontrada. Verifique os argumentos.''"

section \<open>The terminal step: listen\<close>

text \<open>\<open>setup(this.app)\<close> for the three closures.\<close>

fun run_setup :: "framework \<Rightarrow> setup_function \<Rightarrow> unit act" where
  "run_setup F ShutdownHooksSetup = ext F App_enableShutdownHooks"
| "run_setup F HelmetSetup = ext F (App_use Helmet)"
| "run_setup F CompressionSetup = ext F (App_use Compression)"

text \<open>The body of the loop over the plugins: the log entry, then \<open>await plugin.apply\<close>.\<close>

definition apply_plugin :: "framework \<Rightarrow> AppInitializerPlugin \<Rightarrow> unit act" where
  "apply_plugin F plugin =
     seq [emit (Log (msg_plugin @ constructor_name plugin)), ext F (Plugin_apply plugin)]"

text \<open>
  The three conditional calls. The conditions test truthiness: a prefix is a string
  (the empty string is falsy), the option blocks are objects.
\<close>

definition apply_policies :: "framework \<Rightarrow> BuilderState \<Rightarrow> unit act" where
  "apply_policies F this =
     seq [(case globalPrefix this of
             None \<Rightarrow> skip
           | Some p \<Rightarrow> if truthy (JStr p) then ext F (App_setGlobalPrefix p) else skip),
          (case corsOptions this of None \<Rightarrow> skip | Some c \<Rightarrow> ext F (App_enableCors c)),
          (case versioningOptions this of None \<Rightarrow> skip | Some v \<Rightarrow> ext F (App_enableVersioning v))]"

definition build_document :: "SwaggerOptions \<Rightarrow> document_config" where
  "build_document opts =
     \<lparr>doc_title = title opts, doc_description = description opts, doc_version = version opts,
      doc_tags = map (\<lambda>t. (tag_name t, tag_description t))
                   (case tags opts of None \<Rightarrow> [] | Some ts \<Rightarrow> ts)\<rparr>"

definition swagger_path :: "SwaggerOptions \<Rightarrow> string" where
  "swagger_path opts = (case path opts of None \<Rightarrow> ''docs'' | Some p \<Rightarrow> p)"

definition setup_swagger :: "framework \<Rightarrow> BuilderState \<Rightarrow> unit act" where
  "setup_swagger F this =
     (case swaggerOptions this of
        None \<Rightarrow> skip
      | Some opts \<Rightarrow>
          seq [ext F (SwaggerModule_createDocument (build_document opts) (documentOptions opts)),
               ext F (SwaggerModule_setup (swagger_path opts) (customOptions opts))])"

definition root_of :: "BuilderState \<Rightarrow> DynamicRootModule" where
  "root_of this =
     \<lparr>rootImports = TypeModule (module this) # featureModules this,
      allControllers =
        (case autoDiscoveredComponents this of None \<Rightarrow> [] | Some d \<Rightarrow> controllers d)
        @ factoryGeneratedControllers this,
      allProviders =
        (case autoDiscoveredComponents this of
           None \<Rightarrow> [] | Some d \<Rightarrow> map ClassProvider (providers d))
        @ globalProviders this\<rparr>"

definition report_url :: "framework \<Rightarrow> BuilderState \<Rightarrow> unit act" where
  "report_url F this =
     and_then (ext F App_getUrl)
       (\<lambda>u tr. (let appUrl = resolved_url F tr in
          seq [emit (Log (msg_running @ appUrl)),
               (case swaggerOptions this of
                  None \<Rightarrow> skip
                | Some opts \<Rightarrow> emit (Log (msg_docs @ appUrl @ ''/'' @ swagger_path opts)))] tr))"

definition listen :: "framework \<Rightarrow> BuilderState \<Rightarrow> unit act" where
  "listen F this =
     seq [emit (Log msg_creating),
          ext F (NestFactory_create (root_of this) (adapter this)),
          apply_policies F this,
          seq (map (run_setup F) (setupFunctions this)),
          seq (map (apply_plugin F) (plugins this)),
          seq (map (\<lambda>interceptor. ext F (App_useGlobalInterceptors interceptor))
                 (globalInterceptors this)),
          setup_swagger F this,
          ext F (App_listen (port this)),
          report_url F this]"

section \<open>The static entry point: bootstrap\<close>

text \<open>
  The configuration callback is user code: its body calls methods of the builder and
  may throw at any point. It is an ordinary function or an \<open>async\<close> function (README.md
  passes one); \<open>bootstrap\<close> calls it and does not await what it returns. The body of an
  \<open>async\<close> callback is taken to await nothing, so that it runs to its end or to its throw
  during the call: a body that awaits would go on while \<open>listen\<close> runs, which is not
  modelled.
\<close>

datatype configurator_step = Invoke config_call | ThrowValue thrown

datatype AppConfigurator =
    SyncFunction "configurator_step list"
  | AsyncFunction "configurator_step list"

text \<open>
  The body: the state of the builder when the body ends or throws (the calls made
  before a throw have changed the builder), and what it throws.
\<close>

fun run_body :: "host \<Rightarrow> configurator_step list \<Rightarrow> BuilderState \<Rightarrow> BuilderState \<times> thrown option" where
  "run_body H [] this = (this, None)"
| "run_body H (Invoke c # steps) this = run_body H steps (invoke H c this)"
| "run_body H (ThrowValue e # steps) this = (this, Some e)"

text \<open>
  The call \<open>finalConfigurator(initializer)\<close>. An ordinary function throws what its body
  throws. An \<open>async\<close> function never throws: a throw of its body rejects the promise
  that the call returns, \<open>bootstrap\<close> drops that promise, and the run goes on with the
  builder as the body left it. What the host does with a rejected promise that nothing
  handles is outside the model.
\<close>

fun call_configurator :: "host \<Rightarrow> AppConfigurator \<Rightarrow> BuilderState \<Rightarrow> thrown + BuilderState" where
  "call_configurator H (SyncFunction body) this =
     (case run_body H body this of
        (this', Some e) \<Rightarrow> Inl e
      | (this', None) \<Rightarrow> Inr this')"
| "call_configurator H (AsyncFunction body) this = Inr (fst (run_body H body this))"

text \<open>The second argument of \<open>bootstrap\<close>: an adapter (an object) or a function.\<close>

datatype adapter_or_configurator = AdapterArg AbstractHttpAdapter | ConfiguratorArg AppConfigurator

text \<open>
  How a run of \<open>bootstrap\<close> ends: its promise is fulfilled, it is rejected, it never
  settles, or the process exits.
\<close>

datatype ending = Fulfilled | Rejected thrown | Pending | Exited int

definition log_failure :: "thrown \<Rightarrow> event" where
  "log_failure error =
     (case error of
        ErrorObj cls message stack \<Rightarrow> LogError (msg_failed @ message) (Stack stack)
      | NonError v \<Rightarrow> LogError msg_failed_nonstandard (Raw v))"

definition bootstrap :: "host \<Rightarrow> framework \<Rightarrow> tname \<Rightarrow> adapter_or_configurator
    \<Rightarrow> AppConfigurator option \<Rightarrow> event list \<times> ending" where
  "bootstrap H F m adapterOrConfigurator configurator =
     (let isExpress = (case adapterOrConfigurator of ConfiguratorArg f \<Rightarrow> True | AdapterArg a \<Rightarrow> False);
          adapter_arg = (case adapterOrConfigurator of ConfiguratorArg f \<Rightarrow> None | AdapterArg a \<Rightarrow> Some a);
          finalConfigurator =
            (case adapterOrConfigurator of ConfiguratorArg f \<Rightarrow> Some f | AdapterArg a \<Rightarrow> configurator)
      in case finalConfigurator of
           None \<Rightarrow> ([], Rejected (ErrorObj ''TypeError'' msg_no_configurator (stack_trace H)))
         | Some configure \<Rightarrow>
             (let initializer = new_AppInitializer H m adapter_arg;
                  started = [Log msg_starting];
                  (tr, res) = (case call_configurator H configure initializer of
                                 Inl e \<Rightarrow> (started, Threw e)
                               | Inr this \<Rightarrow> listen F this started)
              in case res of
                   Ok u \<Rightarrow> (tr, Fulfilled)
                 | Hung \<Rightarrow> (tr, Pending)
                 | Threw error \<Rightarrow> (tr @ [log_failure error, ProcessExit 1], Exited 1)))"

section \<open>Notions used to state the properties\<close>

text \<open>
  The two predicates that the scanner queries, a file that loads, exports that can all
  be read, and the invariant of the two result lists.
\<close>

definition loads :: "require_fn \<Rightarrow> string \<Rightarrow> bool" where
  "loads requireFn file = (case requireFn file of Inl e \<Rightarrow> False | Inr exports \<Rightarrow> True)"

definition routed :: "reflector \<Rightarrow> tname \<Rightarrow> bool" where
  "routed reflectorInst c = truthy (reflectorInst ''path'' c)"

definition marked_injectable :: "reflector \<Rightarrow> tname \<Rightarrow> bool" where
  "marked_injectable reflectorInst c = truthy (reflectorInst ''__injectable__'' c)"

definition well_classified :: "reflector \<Rightarrow> tname list \<times> tname list \<Rightarrow> bool" where
  "well_classified r acc =
     ((\<forall>c \<in> set (snd acc). routed r c) \<and>
      (\<forall>c \<in> set (fst acc). \<not> routed r c \<and> marked_injectable r c))"

definition readable :: "module_exports \<Rightarrow> bool" where
  "readable exports = (\<forall>entry \<in> set exports. case snd entry of Inl e \<Rightarrow> False | Inr v \<Rightarrow> True)"

text \<open>
  Metadata is registered for a class under a key when the reflector returns a value for
  it: \<open>reflectorInst.get\<close> returns \<open>undefined\<close> where nothing is registered.
\<close>

definition registered :: "reflector \<Rightarrow> string \<Rightarrow> tname \<Rightarrow> bool" where
  "registered reflectorInst metadataKey c = (reflectorInst metadataKey c \<noteq> JUndefined)"

text \<open>
  A file that exports two classes whose registered routing path is the empty string, as
  the decorator \<open>@Controller('')\<close> registers it; the second is marked injectable too.
\<close>

definition rootReflector :: reflector where
  "rootReflector metadataKey target =
     (if metadataKey = ''path'' \<and> (target = ''RootController'' \<or> target = ''RootFacade'')
      then JStr []
      else if metadataKey = ''__injectable__'' \<and> target = ''RootFacade'' then JBool True
      else JUndefined)"

definition rootRequire :: require_fn where
  "rootRequire request =
     (if request = ''/src/root.controller.js''
      then Inr [(''RootController'', Inr (JFunction ''RootController'' True)),
                (''RootFacade'', Inr (JFunction ''RootFacade'' True))]
      else Inr [])"

text \<open>The mocks of test/core/auto-discovery.helper.spec.ts.\<close>

definition mockReflector :: reflector where
  "mockReflector metadataKey target =
     (if metadataKey = ''path'' \<and> target = ''MockController'' then JStr ''/mock''
      else if metadataKey = ''__injectable__'' \<and> target = ''MockProvider'' then JBool True
      else JUndefined)"

definition mockRequire :: require_fn where
  "mockRequire request =
     (if request = ''/fake/path/controller.js'' then Inr [(''MockController'', Inr (JFunction ''MockController'' True))]
      else if request = ''/fake/path/provider.js'' then Inr [(''MockProvider'', Inr (JFunction ''MockProvider'' True))]
      else if request = ''/fake/path/mixed.js'' then
        Inr [(''MockController'', Inr (JFunction ''MockController'' True)),
             (''MockProvider'', Inr (JFunction ''MockProvider'' True))]
      else if request = ''/fake/path/non-decorated.js'' then
        Inr [(''NonDecoratedClass'', Inr (JFunction ''NonDecoratedClass'' True))]
      else if request = ''/fake/path/non-class.js'' then Inr [(''configValue'', Inr (JOther (JNum 123)))]
      else if request = ''/fake/path/error.js'' then Inl (ErrorObj ''Error'' ''Mock require error'' None)
      else Inr [])"

definition mockJoin :: "string list \<Rightarrow> string" where
  "mockJoin parts = (case parts of [] \<Rightarrow> ''.'' | p # ps \<Rightarrow> foldl (\<lambda>a b. a @ ''/'' @ b) p ps)"

definition mockGlobSync :: "string list \<Rightarrow> string \<Rightarrow> glob_options \<Rightarrow> string list" where
  "mockGlobSync files pattern opts = files"

definition emits :: "(event \<Rightarrow> bool) \<Rightarrow> 'a act \<Rightarrow> bool" where
  "emits Q m = (\<forall>tr. \<exists>evs. fst (m tr) = tr @ evs \<and> (\<forall>e \<in> set evs. Q e))"

datatype call_kind = KCreate | KPolicy | KSetup | KPlugin | KInterceptor | KSwagger | KListen | KUrl

fun kind_of :: "fw_call \<Rightarrow> call_kind" where
  "kind_of (NestFactory_create r a) = KCreate"
| "kind_of (App_setGlobalPrefix p) = KPolicy"
| "kind_of (App_enableCors c) = KPolicy"
| "kind_of (App_enableVersioning v) = KPolicy"
| "kind_of App_enableShutdownHooks = KSetup"
| "kind_of (App_use mw) = KSetup"
| "kind_of (Plugin_apply p) = KPlugin"
| "kind_of (App_useGlobalInterceptors i) = KInterceptor"
| "kind_of (SwaggerModule_createDocument d opts) = KSwagger"
| "kind_of (SwaggerModule_setup p opts) = KSwagger"
| "kind_of (App_listen n) = KListen"
| "kind_of App_getUrl = KUrl"

text \<open>an event of listen: a log entry or an event of a call of one of the kinds\<close>

fun of_kinds :: "call_kind set \<Rightarrow> event \<Rightarrow> bool" where
  "of_kinds K (Log s) = True"
| "of_kinds K (LogError s d) = False"
| "of_kinds K (Call c) = (kind_of c \<in> K)"
| "of_kinds K (Return c) = (kind_of c \<in> K)"
| "of_kinds K (Raise c e) = (kind_of c \<in> K)"
| "of_kinds K (ProcessExit n) = False"

text \<open>The elementary mutations of the builder state: a scalar field is set, or one entry is
  appended to one sequence.\<close>

datatype mutation =
    SetPort jsnum
  | SetGlobalPrefix string
  | SetVersioning js_object
  | SetCors js_object
  | SetSwagger SwaggerOptions
  | SetAdvancedSwaggerUi advanced_swagger_ui
  | SetDiscovered DiscoveredComponents
  | PushSetup setup_function
  | PushPlugin AppInitializerPlugin
  | PushModule AnyModule
  | PushProvider Provider
  | PushInterceptor NestInterceptor

fun mutate :: "BuilderState \<Rightarrow> mutation \<Rightarrow> BuilderState" where
  "mutate this (SetPort p) = this\<lparr>port := p\<rparr>"
| "mutate this (SetGlobalPrefix p) = this\<lparr>globalPrefix := Some p\<rparr>"
| "mutate this (SetVersioning v) = this\<lparr>versioningOptions := Some v\<rparr>"
| "mutate this (SetCors c) = this\<lparr>corsOptions := Some c\<rparr>"
| "mutate this (SetSwagger opts) = this\<lparr>swaggerOptions := Some opts\<rparr>"
| "mutate this (SetAdvancedSwaggerUi ui) = this\<lparr>advancedSwaggerUiOptions := Some ui\<rparr>"
| "mutate this (SetDiscovered d) = this\<lparr>autoDiscoveredComponents := Some d\<rparr>"
| "mutate this (PushSetup f) = this\<lparr>setupFunctions := setupFunctions this @ [f]\<rparr>"
| "mutate this (PushPlugin p) = this\<lparr>plugins := plugins this @ [p]\<rparr>"
| "mutate this (PushModule m) = this\<lparr>featureModules := featureModules this @ [m]\<rparr>"
| "mutate this (PushProvider p) = this\<lparr>globalProviders := globalProviders this @ [p]\<rparr>"
| "mutate this (PushInterceptor i) = this\<lparr>globalInterceptors := globalInterceptors this @ [i]\<rparr>"

text \<open>The mutations that a chained call performs, in the order it performs them.\<close>

fun mutations :: "host \<Rightarrow> config_call \<Rightarrow> mutation list"
  and mutations_all :: "host \<Rightarrow> config_call list \<Rightarrow> mutation list" where
  "mutations H (UseDevelopmentDefaults opts) =
     [SetSwagger (opts\<lparr>path := Some ''docs''\<rparr>), PushPlugin RequestLoggerPlugin]"
| "mutations H UseProductionDefaults =
     [PushSetup HelmetSetup, PushSetup CompressionSetup, PushSetup ShutdownHooksSetup,
      PushPlugin (new_RateLimiterPlugin [])]"
| "mutations H (When condition configure) = (if condition then mutations_all H configure else [])"
| "mutations H (WithHealthCheck opts) = [PushModule (TerminusHealthCheckModule_forRoot opts)]"
| "mutations H WithMetrics = [PushModule MetricsModule_forRoot]"
| "mutations H (OnPort p) = [SetPort p]"
| "mutations H (WithPlugin plugin) = [PushPlugin plugin]"
| "mutations H (WithVersioning opts) = [SetVersioning opts]"
| "mutations H (WithGlobalPrefix pfx) =
     [SetGlobalPrefix (if startsWith_slash pfx then pfx else ''/'' @ pfx)]"
| "mutations H (WithCors arg) = [SetCors (case arg of None \<Rightarrow> [] | Some opts \<Rightarrow> opts)]"
| "mutations H (WithValidationPipe arg) =
     [PushProvider (UseValueNew APP_PIPE ''ValidationPipe''
        (spread [(''whitelist'', JBool True), (''forbidNonWhitelisted'', JBool True),
                 (''transform'', JBool True),
                 (''transformOptions'', JObj ''{enableImplicitConversion: true}'')]
           (case arg of None \<Rightarrow> [] | Some opts \<Rightarrow> opts)))]"
| "mutations H (UseGlobalPipe pipe) = [PushProvider (UseClass APP_PIPE pipe)]"
| "mutations H (UseGlobalFilter f) = [PushProvider (UseClass APP_FILTER f)]"
| "mutations H (UseGlobalGuard guard) = [PushProvider (UseClass APP_GUARD guard)]"
| "mutations H (UseGlobalInterceptor interceptor) = [PushProvider (UseClass APP_INTERCEPTOR interceptor)]"
| "mutations H WithClassSerializer =
     [PushProvider (UseClass APP_INTERCEPTOR ''ClassSerializerInterceptor'')]"
| "mutations H (WithSwagger opts) =
     [SetSwagger (opts\<lparr>path := (case path opts of None \<Rightarrow> Some ''docs'' | Some p \<Rightarrow> Some p)\<rparr>)]"
| "mutations H WithAdvancedSwaggerUI =
     [SetAdvancedSwaggerUi
        \<lparr>customCss = Some (path_join H [dirname H, ''swagger-ui-customization'',
                                        ''swagger-dark-theme.css'']),
         customJs = Some (path_join H [dirname H, ''swagger-ui-customization'',
                                       ''swagger-custom.js''])\<rparr>]"
| "mutations H WithGracefulShutdown = [PushSetup ShutdownHooksSetup]"
| "mutations H UseHelmet = [PushSetup HelmetSetup]"
| "mutations H EnableCompression = [PushSetup CompressionSetup]"
| "mutations H (WithValidatedConfig schema) = [PushModule (ConfigModule_forRoot schema)]"
| "mutations H (WithTypeOrm opts) =
     PushModule (starter_module (createTypeOrmStarter opts))
       # map PushPlugin (starter_plugins (createTypeOrmStarter opts))"
| "mutations H (WithMongoose opts) = [PushModule (starter_module (createMongooseStarter opts))]"
| "mutations H (WithCaching opts) = [PushModule (createCachingStarter opts)]"
| "mutations H (WithAutoDiscovery basePath) =
     [SetDiscovered (discoverComponents (path_join H) (globSync H) basePath
                       (Reflector_get H) (node_require H))]"
| "mutations H (AddGlobalInterceptor interceptor) = [PushInterceptor interceptor]"
| "mutations H (WithResponseMapper mapper) = [PushInterceptor (ResponsePatternInterceptor mapper)]"
| "mutations_all H [] = []"
| "mutations_all H (c # cs) = mutations H c @ mutations_all H cs"

text \<open>What a list of mutations appends to each sequence, and the last value it sets.\<close>

fun pushed_modules :: "mutation list \<Rightarrow> AnyModule list" where
  "pushed_modules [] = []"
| "pushed_modules (PushModule m # ms) = m # pushed_modules ms"
| "pushed_modules (other # ms) = pushed_modules ms"

fun pushed_providers :: "mutation list \<Rightarrow> Provider list" where
  "pushed_providers [] = []"
| "pushed_providers (PushProvider p # ms) = p # pushed_providers ms"
| "pushed_providers (other # ms) = pushed_providers ms"

fun pushed_plugins :: "mutation list \<Rightarrow> AppInitializerPlugin list" where
  "pushed_plugins [] = []"
| "pushed_plugins (PushPlugin p # ms) = p # pushed_plugins ms"
| "pushed_plugins (other # ms) = pushed_plugins ms"

fun pushed_setups :: "mutation list \<Rightarrow> setup_function list" where
  "pushed_setups [] = []"
| "pushed_setups (PushSetup f # ms) = f # pushed_setups ms"
| "pushed_setups (other # ms) = pushed_setups ms"

fun pushed_interceptors :: "mutation list \<Rightarrow> NestInterceptor list" where
  "pushed_interceptors [] = []"
| "pushed_interceptors (PushInterceptor i # ms) = i # pushed_interceptors ms"
| "pushed_interceptors (other # ms) = pushed_interceptors ms"

fun last_discovered :: "mutation list \<Rightarrow> DiscoveredComponents option \<Rightarrow> DiscoveredComponents option" where
  "last_discovered [] d = d"
| "last_discovered (SetDiscovered d' # ms) d = last_discovered ms (Some d')"
| "last_discovered (other # ms) d = last_discovered ms d"

fun is_create :: "event \<Rightarrow> bool" where
  "is_create (Call (NestFactory_create r a)) = True"
| "is_create e = False"

fun is_policy_call :: "event \<Rightarrow> bool" where
  "is_policy_call (Call c) = (kind_of c = KPolicy)"
| "is_policy_call e = False"

text \<open>The calls for the policies that are set, in the order prefix, CORS, versioning.\<close>

definition policy_calls :: "BuilderState \<Rightarrow> event list" where
  "policy_calls this =
     (case globalPrefix this of None \<Rightarrow> [] | Some p \<Rightarrow> [Call (App_setGlobalPrefix p)]) @
     (case corsOptions this of None \<Rightarrow> [] | Some c \<Rightarrow> [Call (App_enableCors c)]) @
     (case versioningOptions this of None \<Rightarrow> [] | Some v \<Rightarrow> [Call (App_enableVersioning v)])"

text \<open>A host and two frameworks for concrete runs: one answers every call by returning, one
  rejects the application of the plugin named \<open>Failing\<close>.\<close>

definition mockHost :: host where
  "mockHost =
     \<lparr>path_join = mockJoin,
      globSync = mockGlobSync [''/fake/path/controller.js'', ''/fake/path/error.js'',
                               ''/fake/path/provider.js''],
      node_require = mockRequire, Reflector_get = mockReflector,
      dirname = ''/dist/core'', env_PORT = None, stack_trace = None\<rparr>"

definition mockNestApp :: framework where
  "mockNestApp = \<lparr>respond = (\<lambda>tr c. Returns), resolved_url = (\<lambda>tr. ''http://localhost:3000'')\<rparr>"

fun is_plugin_event :: "event \<Rightarrow> bool" where
  "is_plugin_event (Call c) = (kind_of c = KPlugin)"
| "is_plugin_event (Return c) = (kind_of c = KPlugin)"
| "is_plugin_event (Raise c e) = (kind_of c = KPlugin)"
| "is_plugin_event e = False"

text \<open>The events of plugins that were applied one after the other and all completed.\<close>

definition completed :: "AppInitializerPlugin list \<Rightarrow> event list" where
  "completed ps = concat (map (\<lambda>p. [Call (Plugin_apply p), Return (Plugin_apply p)]) ps)"

definition failingPlugins :: framework where
  "failingPlugins =
     \<lparr>respond = (\<lambda>tr c. if c = Plugin_apply (CustomPlugin ''Failing'')
                          then Throws (ErrorObj ''Error'' ''plugin failed'' None) else Returns),
      resolved_url = (\<lambda>tr. ''http://localhost:3000'')\<rparr>"

fun is_failure_report :: "event \<Rightarrow> bool" where
  "is_failure_report (LogError s d) = True"
| "is_failure_report (ProcessExit n) = True"
| "is_failure_report e = False"

text \<open>
  The error that the call of the configuration callback or \<open>listen\<close> throws, if any, in
  a run of the \<open>try\<close> block of \<open>bootstrap\<close>.
\<close>

definition failure_of :: "host \<Rightarrow> framework \<Rightarrow> BuilderState \<Rightarrow> AppConfigurator \<Rightarrow> thrown option" where
  "failure_of H F initializer configure =
     (case call_configurator H configure initializer of
        Inl e \<Rightarrow> Some e
      | Inr this \<Rightarrow>
          (case snd (listen F this [Log msg_starting]) of
             Threw e \<Rightarrow> Some e
           | Ok u \<Rightarrow> None
           | Hung \<Rightarrow> None))"

text \<open>The fields of the builder state, and two states that agree on a field.\<close>

datatype field =
    F_module | F_adapter | F_port | F_globalPrefix | F_versioningOptions | F_corsOptions
  | F_swaggerOptions | F_setupFunctions | F_plugins | F_featureModules
  | F_advancedSwaggerUiOptions | F_autoDiscoveredComponents | F_globalProviders
  | F_globalInterceptors | F_factoryGeneratedControllers

fun same_field :: "field \<Rightarrow> BuilderState \<Rightarrow> BuilderState \<Rightarrow> bool" where
  "same_field F_module s t = (module s = module t)"
| "same_field F_adapter s t = (adapter s = adapter t)"
| "same_field F_port s t = (port s = port t)"
| "same_field F_globalPrefix s t = (globalPrefix s = globalPrefix t)"
| "same_field F_versioningOptions s t = (versioningOptions s = versioningOptions t)"
| "same_field F_corsOptions s t = (corsOptions s = corsOptions t)"
| "same_field F_swaggerOptions s t = (swaggerOptions s = swaggerOptions t)"
| "same_field F_setupFunctions s t = (setupFunctions s = setupFunctions t)"
| "same_field F_plugins s t = (plugins s = plugins t)"
| "same_field F_featureModules s t = (featureModules s = featureModules t)"
| "same_field F_advancedSwaggerUiOptions s t = (advancedSwaggerUiOptions s = advancedSwaggerUiOptions t)"
| "same_field F_autoDiscoveredComponents s t = (autoDiscoveredComponents s = autoDiscoveredComponents t)"
| "same_field F_globalProviders s t = (globalProviders s = globalProviders t)"
| "same_field F_globalInterceptors s t = (globalInterceptors s = globalInterceptors t)"
| "same_field F_factoryGeneratedControllers s t =
     (factoryGeneratedControllers s = factoryGeneratedControllers t)"

text \<open>The field that a mutation writes, and whether it sets a scalar.\<close>

fun target :: "mutation \<Rightarrow> field" where
  "target (SetPort p) = F_port"
| "target (SetGlobalPrefix p) = F_globalPrefix"
| "target (SetVersioning v) = F_versioningOptions"
| "target (SetCors c) = F_corsOptions"
| "target (SetSwagger opts) = F_swaggerOptions"
| "target (SetAdvancedSwaggerUi ui) = F_advancedSwaggerUiOptions"
| "target (SetDiscovered d) = F_autoDiscoveredComponents"
| "target (PushSetup f) = F_setupFunctions"
| "target (PushPlugin p) = F_plugins"
| "target (PushModule m) = F_featureModules"
| "target (PushProvider p) = F_globalProviders"
| "target (PushInterceptor i) = F_globalInterceptors"

fun is_set :: "mutation \<Rightarrow> bool" where
  "is_set (SetPort p) = True"
| "is_set (SetGlobalPrefix p) = True"
| "is_set (SetVersioning v) = True"
| "is_set (SetCors c) = True"
| "is_set (SetSwagger opts) = True"
| "is_set (SetAdvancedSwaggerUi ui) = True"
| "is_set (SetDiscovered d) = True"
| "is_set m = False"

text \<open>
  The calls that are not a single mutation: the two presets, \<open>when\<close>, and \<open>withTypeOrm\<close>
  when migrations are to run on startup.
\<close>

fun compound :: "config_call \<Rightarrow> bool" where
  "compound (UseDevelopmentDefaults opts) = True"
| "compound UseProductionDefaults = True"
| "compound (When condition configure) = True"
| "compound (WithTypeOrm opts) = (runMigrationsOnStartup opts = Some True)"
| "compound c = False"

definition migrating :: TypeOrmStarterOptions where
  "migrating = \<lparr>autoLoadEntities = None, runMigrationsOnStartup = Some True,
                 databaseUrlEnvKey = None, typeOrmOptions = None\<rparr>"

section \<open>The scanner: files that fail to load\<close>

lemma try_file_unloadable:
  "requireFn file = Inl e \<Longrightarrow> try_file reflectorInst requireFn file acc = (acc, Some e)"
  by (simp add: try_file_def)

lemma scan_files_append:
  "scan_files r q (xs @ ys) acc = scan_files r q ys (scan_files r q xs acc)"
  by (induction xs arbitrary: acc) simp_all

lemma scan_files_filter_loads:
  "scan_files r q files acc = scan_files r q (filter (loads q) files) acc"
proof (induction files arbitrary: acc)
  case Nil
  show ?case by simp
next
  case (Cons f fs)
  show ?case
  proof (cases "q f")
    case (Inl e)
    then have "\<not> loads q f" by (simp add: loads_def)
    with Inl Cons show ?thesis by (simp add: try_file_def)
  next
    case (Inr ex)
    then have "loads q f" by (simp add: loads_def)
    with Cons show ?thesis by simp
  qed
qed

lemma mock_scan:
  "discoverComponents mockJoin
      (mockGlobSync [''/fake/path/error.js'', ''/fake/path/provider.js'', ''/fake/path/mixed.js'',
                     ''/fake/path/non-decorated.js'', ''/fake/path/non-class.js''])
      ''/base'' mockReflector mockRequire =
    \<lparr>providers = [''MockProvider'', ''MockProvider''], controllers = [''MockController'']\<rparr>"
  by (simp add: discoverComponents_def mockGlobSync_def mockRequire_def mockReflector_def try_file_def)

text \<open>
  Claim C5. A file whose loading throws is skipped entirely and the scan goes on with
  the remaining files: the result of \<open>discoverComponents\<close> is the result of scanning
  only the files that load, and a file that fails to load leaves both lists as they
  were, wherever it stands among the files. The scan has no error result: what the
  \<open>try\<close> block of a file throws is dropped by \<open>scan_files\<close>.
\<close>

theorem scan_skips_unloadable_files:
  "discoverComponents join glob basePath reflectorInst requireFn =
     discoverComponents join (\<lambda>pattern opts. filter (loads requireFn) (glob pattern opts))
       basePath reflectorInst requireFn
   \<and> (\<forall>e before after acc. requireFn bad = Inl e \<longrightarrow>
        try_file reflectorInst requireFn bad acc = (acc, Some e)
        \<and> scan_files reflectorInst requireFn (before @ bad # after) acc =
          scan_files reflectorInst requireFn (before @ after) acc)"
proof -
  have a: "discoverComponents join glob basePath reflectorInst requireFn =
     discoverComponents join (\<lambda>pattern opts. filter (loads requireFn) (glob pattern opts))
       basePath reflectorInst requireFn"
    unfolding discoverComponents_def Let_def
    using scan_files_filter_loads [of reflectorInst requireFn] by simp
  have b: "scan_files reflectorInst requireFn (before @ bad # after) acc =
          scan_files reflectorInst requireFn (before @ after) acc"
    if "requireFn bad = Inl e" for e before after acc
    using that by (simp add: scan_files_append try_file_def)
  from a b show ?thesis by (simp add: try_file_unloadable)
qed

theorem scan_skips_unloadable_files_witness:
  "mockRequire ''/fake/path/error.js'' = Inl (ErrorObj ''Error'' ''Mock require error'' None)
   \<and> scan_files mockReflector mockRequire
         ([''/fake/path/controller.js''] @ ''/fake/path/error.js'' # [''/fake/path/provider.js''])
         ([], []) = ([''MockProvider''], [''MockController''])
   \<and> scan_files mockReflector mockRequire
         ([''/fake/path/controller.js''] @ [''/fake/path/provider.js''])
         ([], []) = ([''MockProvider''], [''MockController''])"
  using scan_skips_unloadable_files [where requireFn = mockRequire
          and reflectorInst = mockReflector and bad = "''/fake/path/error.js''"]
  by (simp add: mockRequire_def mockReflector_def try_file_def)

section \<open>The scanner: classification\<close>

lemma classify_well: "well_classified r acc \<Longrightarrow> well_classified r (classify r v acc)"
  by (cases "(r, v, acc)" rule: classify.cases)
     (auto simp: well_classified_def routed_def marked_injectable_def)

lemma scan_exports_well:
  "well_classified r acc \<Longrightarrow> well_classified r (fst (scan_exports r ex acc))"
  by (induction r ex acc rule: scan_exports.induct) (simp_all add: classify_well)

lemma try_file_well: "well_classified r acc \<Longrightarrow> well_classified r (fst (try_file r q f acc))"
  by (simp add: try_file_def scan_exports_well split: sum.splits)

lemma scan_files_well: "well_classified r acc \<Longrightarrow> well_classified r (scan_files r q fs acc)"
  by (induction fs arbitrary: acc) (simp_all add: try_file_well)

lemma classify_mono:
  "set (fst acc) \<subseteq> set (fst (classify r v acc)) \<and> set (snd acc) \<subseteq> set (snd (classify r v acc))"
  by (cases "(r, v, acc)" rule: classify.cases) auto

lemma scan_exports_mono:
  "set (fst acc) \<subseteq> set (fst (fst (scan_exports r ex acc))) \<and>
   set (snd acc) \<subseteq> set (snd (fst (scan_exports r ex acc)))"
proof (induction r ex acc rule: scan_exports.induct)
  case (3 r key v rest acc)
  with classify_mono [of acc r v] show ?case by auto
qed simp_all

lemma try_file_mono:
  "set (fst acc) \<subseteq> set (fst (fst (try_file r q f acc))) \<and>
   set (snd acc) \<subseteq> set (snd (fst (try_file r q f acc)))"
  using scan_exports_mono by (simp add: try_file_def split: sum.splits)

lemma scan_files_mono:
  "set (fst acc) \<subseteq> set (fst (scan_files r q fs acc)) \<and>
   set (snd acc) \<subseteq> set (snd (scan_files r q fs acc))"
proof (induction fs arbitrary: acc)
  case (Cons f fs)
  with try_file_mono [of acc r q f] show ?case by fastforce
qed simp

lemma scan_exports_reaches:
  "readable pre \<Longrightarrow>
   scan_exports r (pre @ (key, Inr v) # post) acc =
     scan_exports r post (classify r v (fst (scan_exports r pre acc)))"
proof (induction r pre acc rule: scan_exports.induct)
  case (2 r k e rest acc)
  then show ?case by (simp add: readable_def)
next
  case (3 r k w rest acc)
  then show ?case by (simp add: readable_def)
qed simp

lemma classify_routed:
  "routed r c \<Longrightarrow> c \<in> set (snd (classify r (JFunction c True) acc))"
  by (cases acc) (simp add: routed_def)

lemma classify_injectable:
  "\<not> routed r c \<Longrightarrow> marked_injectable r c \<Longrightarrow> c \<in> set (fst (classify r (JFunction c True) acc))"
  by (cases acc) (simp add: routed_def marked_injectable_def)

lemma scan_files_examined:
  assumes "file \<in> set files" and "requireFn file = Inr (pre @ (key, Inr (JFunction c True)) # post)"
    and "readable pre"
  shows "(routed r c \<longrightarrow> c \<in> set (snd (scan_files r requireFn files acc))) \<and>
         (\<not> routed r c \<and> marked_injectable r c \<longrightarrow> c \<in> set (fst (scan_files r requireFn files acc)))"
proof -
  from assms(1) obtain xs ys where files: "files = xs @ file # ys"
    by (meson split_list)
  define acc1 where "acc1 = scan_files r requireFn xs acc"
  define acc2 where "acc2 = fst (scan_exports r pre acc1)"
  define acc3 where "acc3 = classify r (JFunction c True) acc2"
  define acc4 where "acc4 = fst (scan_exports r post acc3)"
  have step: "fst (try_file r requireFn file acc1) = acc4"
    using assms(2,3) by (simp add: try_file_def scan_exports_reaches acc4_def acc3_def acc2_def)
  have final: "scan_files r requireFn files acc = scan_files r requireFn ys acc4"
    by (simp add: files scan_files_append acc1_def [symmetric] step)
  have up: "set (fst acc3) \<subseteq> set (fst (scan_files r requireFn files acc))"
           "set (snd acc3) \<subseteq> set (snd (scan_files r requireFn files acc))"
    using scan_exports_mono [of acc3 r post] scan_files_mono [of acc4 r requireFn ys]
    by (auto simp: final acc4_def)
  show ?thesis
    using up classify_routed [of r c acc2] classify_injectable [of r c acc2]
    by (auto simp: acc3_def)
qed

text \<open>
  What the scanner does with the exports it reads, in terms of the two tests of the
  source, the truthiness of \<open>reflectorInst.get('path', c)\<close> and of
  \<open>reflectorInst.get('__injectable__', c)\<close>, where the metadata of a class stays the
  same during the scan: a class-like export that passes the first test is pushed on the
  controllers; otherwise, when it passes the second, on the providers; otherwise it is
  ignored, as is an export that is not class-like. Over a whole scan no class is in both
  lists, and every class-like export that is read (in a file that loads, before any
  property whose reading throws) ends up in the list the tests select.
\<close>

theorem scan_classification:
  "(routed reflectorInst c \<longrightarrow>
      classify reflectorInst (JFunction c True) (ps, cs) = (ps, cs @ [c]))
   \<and> (\<not> routed reflectorInst c \<and> marked_injectable reflectorInst c \<longrightarrow>
      classify reflectorInst (JFunction c True) (ps, cs) = (ps @ [c], cs))
   \<and> (\<not> routed reflectorInst c \<and> \<not> marked_injectable reflectorInst c \<longrightarrow>
      classify reflectorInst (JFunction c True) (ps, cs) = (ps, cs))
   \<and> classify reflectorInst (JFunction c False) (ps, cs) = (ps, cs)
   \<and> classify reflectorInst (JOther v) (ps, cs) = (ps, cs)
   \<and> (let found = discoverComponents join glob basePath reflectorInst requireFn;
           files = glob (join [basePath, ''**/*.{ts,js}''])
                     \<lparr>ignore = ignore_patterns, absolute = True\<rparr>
       in set (providers found) \<inter> set (controllers found) = {}
          \<and> (\<forall>d \<in> set (controllers found). routed reflectorInst d)
          \<and> (\<forall>d \<in> set (providers found).
                \<not> routed reflectorInst d \<and> marked_injectable reflectorInst d)
          \<and> (\<forall>file \<in> set files. \<forall>pre key d post.
                requireFn file = Inr (pre @ (key, Inr (JFunction d True)) # post) \<and> readable pre \<longrightarrow>
                  (routed reflectorInst d \<longrightarrow> d \<in> set (controllers found)) \<and>
                  (\<not> routed reflectorInst d \<and> marked_injectable reflectorInst d \<longrightarrow>
                     d \<in> set (providers found))))"
proof -
  define files where "files = glob (join [basePath, ''**/*.{ts,js}''])
                     \<lparr>ignore = ignore_patterns, absolute = True\<rparr>"
  define res where "res = scan_files reflectorInst requireFn files ([], [])"
  have found: "discoverComponents join glob basePath reflectorInst requireFn =
      \<lparr>providers = fst res, controllers = snd res\<rparr>"
    by (simp add: discoverComponents_def files_def res_def Let_def split: prod.splits)
  have "well_classified reflectorInst ([], [])"
    by (simp add: well_classified_def)
  then have wc: "well_classified reflectorInst res"
    unfolding res_def by (rule scan_files_well)
  then have disj: "set (fst res) \<inter> set (snd res) = {}"
    by (auto simp: well_classified_def)
  have local: "(routed reflectorInst c \<longrightarrow>
      classify reflectorInst (JFunction c True) (ps, cs) = (ps, cs @ [c]))
   \<and> (\<not> routed reflectorInst c \<and> marked_injectable reflectorInst c \<longrightarrow>
      classify reflectorInst (JFunction c True) (ps, cs) = (ps @ [c], cs))
   \<and> (\<not> routed reflectorInst c \<and> \<not> marked_injectable reflectorInst c \<longrightarrow>
      classify reflectorInst (JFunction c True) (ps, cs) = (ps, cs))
   \<and> classify reflectorInst (JFunction c False) (ps, cs) = (ps, cs)
   \<and> classify reflectorInst (JOther v) (ps, cs) = (ps, cs)"
    by (simp add: routed_def marked_injectable_def)
  have complete: "(routed reflectorInst d \<longrightarrow> d \<in> set (snd res)) \<and>
      (\<not> routed reflectorInst d \<and> marked_injectable reflectorInst d \<longrightarrow> d \<in> set (fst res))"
    if "fl \<in> set files"
      and "requireFn fl = Inr (pre @ (key, Inr (JFunction d True)) # post)"
      and "readable pre" for fl pre key d post
    unfolding res_def using that by (rule scan_files_examined)
  from wc have "(\<forall>d \<in> set (snd res). routed reflectorInst d)
      \<and> (\<forall>d \<in> set (fst res). \<not> routed reflectorInst d \<and> marked_injectable reflectorInst d)"
    by (simp add: well_classified_def)
  with disj complete have global:
    "set (fst res) \<inter> set (snd res) = {}
          \<and> (\<forall>d \<in> set (snd res). routed reflectorInst d)
          \<and> (\<forall>d \<in> set (fst res).
                \<not> routed reflectorInst d \<and> marked_injectable reflectorInst d)
          \<and> (\<forall>file \<in> set files. \<forall>pre key d post.
                requireFn file = Inr (pre @ (key, Inr (JFunction d True)) # post) \<and> readable pre \<longrightarrow>
                  (routed reflectorInst d \<longrightarrow> d \<in> set (snd res)) \<and>
                  (\<not> routed reflectorInst d \<and> marked_injectable reflectorInst d \<longrightarrow>
                     d \<in> set (fst res)))"
    by blast
  from local global show ?thesis
    unfolding Let_def found files_def [symmetric] DiscoveredComponents.select_convs
    by blast
qed

theorem scan_classification_witness:
  "routed mockReflector ''MockController''
   \<and> classify mockReflector (JFunction ''MockController'' True) ([], []) = ([], [''MockController''])
   \<and> \<not> routed mockReflector ''MockProvider'' \<and> marked_injectable mockReflector ''MockProvider''
   \<and> classify mockReflector (JFunction ''MockProvider'' True) ([], []) = ([''MockProvider''], [])"
  using scan_classification [of mockReflector "''MockController''" "[]" "[]"]
        scan_classification [of mockReflector "''MockProvider''" "[]" "[]"]
  by (simp add: routed_def marked_injectable_def mockReflector_def)

text \<open>
  Claim C6 says that an exported class with a registered routing path is classified as
  a handler. The code tests the truthiness of the registered path: a class whose
  registered path is the empty string is not pushed on the controllers. It is ignored,
  or, when it is marked injectable as well, pushed on the providers, although its
  routing path is registered.
\<close>

theorem empty_path_controller_not_discovered:
  "registered rootReflector ''path'' ''RootController''
   \<and> rootReflector ''path'' ''RootController'' = JStr []
   \<and> registered rootReflector ''path'' ''RootFacade''
   \<and> registered rootReflector ''__injectable__'' ''RootFacade''
   \<and> classify rootReflector (JFunction ''RootController'' True) ([], []) = ([], [])
   \<and> classify rootReflector (JFunction ''RootFacade'' True) ([], []) = ([''RootFacade''], [])
   \<and> discoverComponents mockJoin (mockGlobSync [''/src/root.controller.js'']) ''/src''
        rootReflector rootRequire =
       \<lparr>providers = [''RootFacade''], controllers = []\<rparr>"
  by (simp add: registered_def rootReflector_def rootRequire_def discoverComponents_def
        mockGlobSync_def try_file_def)

section \<open>The health endpoint\<close>

text \<open>
  Claim C8. With options \<open>{database: true, memory: {}}\<close> and a database indicator,
  three indicator functions are passed to the health service (and invoked by it): the
  database ping and the two memory checks; with \<open>{database: true}\<close> and no database
  indicator, none. Thresholds that are not configured default to 200 MB (heap) and
  300 MB (resident), converted to bytes; configured ones are converted alike.
\<close>

theorem health_check_invocations:
  "check \<lparr>database = Some True, memory = Some \<lparr>heapThreshold = None, rssThreshold = None\<rparr>\<rparr> True =
     [PingCheck ''database'', CheckHeap ''memory_heap'' (200 * 1024 * 1024),
      CheckRSS ''memory_rss'' (300 * 1024 * 1024)]
   \<and> length (check \<lparr>database = Some True,
                      memory = Some \<lparr>heapThreshold = None, rssThreshold = None\<rparr>\<rparr> True) = 3
   \<and> check \<lparr>database = Some True, memory = None\<rparr> False = []
   \<and> length (check \<lparr>database = Some True, memory = None\<rparr> False) = 0
   \<and> check \<lparr>database = d, memory = Some \<lparr>heapThreshold = None, rssThreshold = None\<rparr>\<rparr> db =
       (if d = Some True \<and> db then [PingCheck ''database''] else []) @
       [CheckHeap ''memory_heap'' 209715200, CheckRSS ''memory_rss'' 314572800]
   \<and> check \<lparr>database = d, memory = Some \<lparr>heapThreshold = Some h, rssThreshold = Some r\<rparr>\<rparr> db =
       (if d = Some True \<and> db then [PingCheck ''database''] else []) @
       [CheckHeap ''memory_heap'' (h * 1048576), CheckRSS ''memory_rss'' (r * 1048576)]"
  by (simp add: check_def)

section \<open>What the steps of \<open>listen\<close> emit\<close>

lemma emits_mono: "emits Q m \<Longrightarrow> (\<And>e. Q e \<Longrightarrow> Q' e) \<Longrightarrow> emits Q' m"
  unfolding emits_def by blast

lemma emits_emit: "Q e \<Longrightarrow> emits Q (emit e)"
  by (simp add: emits_def emit_def)

lemma emits_skip: "emits Q skip"
  by (simp add: emits_def skip_def)

lemma emits_ext: "kind_of c \<in> K \<Longrightarrow> emits (of_kinds K) (ext F c)"
  by (simp add: emits_def ext_def split: response.splits)

lemma emits_seq: "(\<And>a. a \<in> set as \<Longrightarrow> emits Q a) \<Longrightarrow> emits Q (seq as)"
proof (induction as)
  case Nil
  show ?case by (simp add: emits_def)
next
  case (Cons a as)
  have a: "emits Q a" and rest: "emits Q (seq as)"
    using Cons by simp_all
  show ?case
    unfolding emits_def
  proof
    fix tr
    from a obtain evs where evs: "fst (a tr) = tr @ evs" "\<forall>e \<in> set evs. Q e"
      unfolding emits_def by blast
    from rest obtain evs' where evs': "fst (seq as (tr @ evs)) = (tr @ evs) @ evs'" "\<forall>e \<in> set evs'. Q e"
      unfolding emits_def by blast
    show "\<exists>evs. fst (seq (a # as) tr) = tr @ evs \<and> (\<forall>e \<in> set evs. Q e)"
    proof (cases "a tr")
      case (Pair tr' r)
      with evs have tr': "tr' = tr @ evs" by simp
      show ?thesis
      proof (cases r)
        case (Ok u)
        with Pair tr' evs evs' show ?thesis
          by (intro exI [of _ "evs @ evs'"]) auto
      next
        case (Threw x)
        with Pair tr' evs show ?thesis by (intro exI [of _ evs]) auto
      next
        case Hung
        with Pair tr' evs show ?thesis by (intro exI [of _ evs]) auto
      qed
    qed
  qed
qed

lemma emits_and_then:
  assumes "emits Q m" and "\<And>x. emits Q (f x)"
  shows "emits Q (and_then m f)"
  unfolding emits_def
proof
  fix tr
  from assms(1) obtain evs where evs: "fst (m tr) = tr @ evs" "\<forall>e \<in> set evs. Q e"
    unfolding emits_def by blast
  show "\<exists>evs. fst (and_then m f tr) = tr @ evs \<and> (\<forall>e \<in> set evs. Q e)"
  proof (cases "m tr")
    case (Pair tr' r)
    with evs have tr': "tr' = tr @ evs" by simp
    show ?thesis
    proof (cases r)
      case (Ok x)
      from assms(2) [of x] obtain evs' where
        evs': "fst (f x (tr @ evs)) = (tr @ evs) @ evs'" "\<forall>e \<in> set evs'. Q e"
        unfolding emits_def by blast
      with Pair tr' evs Ok show ?thesis
        by (intro exI [of _ "evs @ evs'"]) (auto simp: and_then_def)
    next
      case (Threw x)
      with Pair tr' evs show ?thesis by (intro exI [of _ evs]) (auto simp: and_then_def)
    next
      case Hung
      with Pair tr' evs show ?thesis by (intro exI [of _ evs]) (auto simp: and_then_def)
    qed
  qed
qed

lemma emits_filter:
  assumes "emits Q m" and "\<And>e. Q e \<Longrightarrow> \<not> P e"
  shows "filter P (fst (m tr)) = filter P tr"
proof -
  from assms(1) obtain evs where "fst (m tr) = tr @ evs" "\<forall>e \<in> set evs. Q e"
    unfolding emits_def by blast
  with assms(2) show ?thesis by (simp add: filter_empty_conv)
qed

lemma of_kinds_mono: "K \<subseteq> K' \<Longrightarrow> of_kinds K e \<Longrightarrow> of_kinds K' e"
  by (cases e) auto

lemma emits_policies: "emits (of_kinds {KPolicy}) (apply_policies F this)"
  unfolding apply_policies_def
  by (rule emits_seq) (auto intro!: emits_skip emits_ext split: option.splits)

lemma emits_run_setup: "emits (of_kinds {KSetup}) (run_setup F f)"
  by (cases f) (simp_all add: emits_ext)

lemma emits_setups: "emits (of_kinds {KSetup}) (seq (map (run_setup F) fs))"
  by (rule emits_seq) (auto simp: emits_run_setup)

lemma emits_apply_plugin: "emits (of_kinds {KPlugin}) (apply_plugin F p)"
  unfolding apply_plugin_def
  by (rule emits_seq) (auto intro!: emits_emit emits_ext)

lemma emits_plugins: "emits (of_kinds {KPlugin}) (seq (map (apply_plugin F) ps))"
  by (rule emits_seq) (auto simp: emits_apply_plugin)

lemma emits_interceptors:
  "emits (of_kinds {KInterceptor}) (seq (map (\<lambda>i. ext F (App_useGlobalInterceptors i)) xs))"
  by (rule emits_seq) (auto simp: emits_ext)

lemma emits_swagger: "emits (of_kinds {KSwagger}) (setup_swagger F this)"
  unfolding setup_swagger_def
  by (auto intro!: emits_skip emits_seq emits_ext split: option.splits)

lemma emits_report_url: "emits (of_kinds {KUrl}) (report_url F this)"
  unfolding report_url_def Let_def
  apply (rule emits_and_then)
   apply (simp add: emits_ext)
  apply (subst emits_def)
  apply (auto simp: emit_def skip_def split: option.splits)
  done


section \<open>The chained calls as sequences of mutations\<close>

lemma invoke_mutations:
  "invoke H c this = foldl mutate this (mutations H c)"
  "invoke_all H cs this = foldl mutate this (mutations_all H cs)"
proof (induction H c this and H cs this rule: invoke_invoke_all.induct)
  case (23 H opts this)
  show ?case
    by (simp add: withTypeOrm_def Let_def createTypeOrmStarter_def withPlugin_def)
qed (simp_all add: useDevelopmentDefaults_def useProductionDefaults_def withHealthCheck_def
      withMetrics_def onPort_def withPlugin_def withVersioning_def withGlobalPrefix_def
      withCors_def withValidationPipe_def useGlobalPipe_def useGlobalFilter_def
      useGlobalGuard_def useGlobalInterceptor_def withClassSerializer_def withSwagger_def
      withAdvancedSwaggerUI_def withGracefulShutdown_def useHelmet_def enableCompression_def
      withValidatedConfig_def withMongoose_def withCaching_def withAutoDiscovery_def
      addGlobalInterceptor_def withResponseMapper_def Let_def)

lemma foldl_mutate_fields:
  "featureModules (foldl mutate this ms) = featureModules this @ pushed_modules ms"
  "globalProviders (foldl mutate this ms) = globalProviders this @ pushed_providers ms"
  "plugins (foldl mutate this ms) = plugins this @ pushed_plugins ms"
  "setupFunctions (foldl mutate this ms) = setupFunctions this @ pushed_setups ms"
  "globalInterceptors (foldl mutate this ms) = globalInterceptors this @ pushed_interceptors ms"
  "autoDiscoveredComponents (foldl mutate this ms) = last_discovered ms (autoDiscoveredComponents this)"
  "factoryGeneratedControllers (foldl mutate this ms) = factoryGeneratedControllers this"
  "module (foldl mutate this ms) = module this"
  "adapter (foldl mutate this ms) = adapter this"
proof (induction ms arbitrary: this)
  case Nil
  { case 1 show ?case by simp }
  { case 2 show ?case by simp }
  { case 3 show ?case by simp }
  { case 4 show ?case by simp }
  { case 5 show ?case by simp }
  { case 6 show ?case by simp }
  { case 7 show ?case by simp }
  { case 8 show ?case by simp }
  { case 9 show ?case by simp }
next
  case (Cons m ms)
  { case 1 show ?case by (cases m) (simp_all add: Cons) }
  { case 2 show ?case by (cases m) (simp_all add: Cons) }
  { case 3 show ?case by (cases m) (simp_all add: Cons) }
  { case 4 show ?case by (cases m) (simp_all add: Cons) }
  { case 5 show ?case by (cases m) (simp_all add: Cons) }
  { case 6 show ?case by (cases m) (simp_all add: Cons) }
  { case 7 show ?case by (cases m) (simp_all add: Cons) }
  { case 8 show ?case by (cases m) (simp_all add: Cons) }
  { case 9 show ?case by (cases m) (simp_all add: Cons) }
qed


section \<open>The composition root\<close>

lemma emits_kinds_mono: "emits (of_kinds K) m \<Longrightarrow> K \<subseteq> K' \<Longrightarrow> emits (of_kinds K') m"
  using emits_mono of_kinds_mono by blast

lemma seq_append:
  "seq (as @ bs) tr =
     (case seq as tr of
        (tr', Ok u) \<Rightarrow> seq bs tr'
      | (tr', Threw e) \<Rightarrow> (tr', Threw e)
      | (tr', Hung) \<Rightarrow> (tr', Hung))"
  by (induction as arbitrary: tr) (auto split: prod.splits outcome.splits)

lemma emits_listen_call: "emits (of_kinds {KListen}) (ext F (App_listen n))"
  by (simp add: emits_ext)

lemma emits_after_policies:
  "emits (of_kinds {KSetup, KPlugin, KInterceptor, KSwagger, KListen, KUrl})
     (seq [seq (map (run_setup F) (setupFunctions this)),
           seq (map (apply_plugin F) (plugins this)),
           seq (map (\<lambda>interceptor. ext F (App_useGlobalInterceptors interceptor))
                  (globalInterceptors this)),
           setup_swagger F this,
           ext F (App_listen (port this)),
           report_url F this])"
proof (rule emits_seq)
  fix a
  assume "a \<in> set [seq (map (run_setup F) (setupFunctions this)),
           seq (map (apply_plugin F) (plugins this)),
           seq (map (\<lambda>interceptor. ext F (App_useGlobalInterceptors interceptor))
                  (globalInterceptors this)),
           setup_swagger F this,
           ext F (App_listen (port this)),
           report_url F this]"
  then consider "a = seq (map (run_setup F) (setupFunctions this))"
    | "a = seq (map (apply_plugin F) (plugins this))"
    | "a = seq (map (\<lambda>interceptor. ext F (App_useGlobalInterceptors interceptor))
                  (globalInterceptors this))"
    | "a = setup_swagger F this" | "a = ext F (App_listen (port this))" | "a = report_url F this"
    by auto
  then show "emits (of_kinds {KSetup, KPlugin, KInterceptor, KSwagger, KListen, KUrl}) a"
  proof cases
    case 1 then show ?thesis using emits_kinds_mono [OF emits_setups] by simp
  next
    case 2 then show ?thesis using emits_kinds_mono [OF emits_plugins] by simp
  next
    case 3 then show ?thesis using emits_kinds_mono [OF emits_interceptors] by simp
  next
    case 4 then show ?thesis using emits_kinds_mono [OF emits_swagger] by simp
  next
    case 5 then show ?thesis using emits_kinds_mono [OF emits_listen_call] by simp
  next
    case 6 then show ?thesis using emits_kinds_mono [OF emits_report_url] by simp
  qed
qed

lemma emits_after_create:
  "emits (of_kinds {KPolicy, KSetup, KPlugin, KInterceptor, KSwagger, KListen, KUrl})
     (seq ([apply_policies F this] @
          [seq (map (run_setup F) (setupFunctions this)),
           seq (map (apply_plugin F) (plugins this)),
           seq (map (\<lambda>interceptor. ext F (App_useGlobalInterceptors interceptor))
                  (globalInterceptors this)),
           setup_swagger F this,
           ext F (App_listen (port this)),
           report_url F this]))"
proof (rule emits_seq)
  fix a
  assume "a \<in> set ([apply_policies F this] @
          [seq (map (run_setup F) (setupFunctions this)),
           seq (map (apply_plugin F) (plugins this)),
           seq (map (\<lambda>interceptor. ext F (App_useGlobalInterceptors interceptor))
                  (globalInterceptors this)),
           setup_swagger F this,
           ext F (App_listen (port this)),
           report_url F this])"
  then consider "a = apply_policies F this"
    | "a = seq (map (run_setup F) (setupFunctions this))"
    | "a = seq (map (apply_plugin F) (plugins this))"
    | "a = seq (map (\<lambda>interceptor. ext F (App_useGlobalInterceptors interceptor))
                  (globalInterceptors this))"
    | "a = setup_swagger F this" | "a = ext F (App_listen (port this))" | "a = report_url F this"
    by auto
  then show "emits (of_kinds {KPolicy, KSetup, KPlugin, KInterceptor, KSwagger, KListen, KUrl}) a"
  proof cases
    case 1 then show ?thesis using emits_kinds_mono [OF emits_policies] by simp
  next
    case 2 then show ?thesis using emits_kinds_mono [OF emits_setups] by simp
  next
    case 3 then show ?thesis using emits_kinds_mono [OF emits_plugins] by simp
  next
    case 4 then show ?thesis using emits_kinds_mono [OF emits_interceptors] by simp
  next
    case 5 then show ?thesis using emits_kinds_mono [OF emits_swagger] by simp
  next
    case 6 then show ?thesis using emits_kinds_mono [OF emits_listen_call] by simp
  next
    case 7 then show ?thesis using emits_kinds_mono [OF emits_report_url] by simp
  qed
qed

lemma not_create_of_kinds: "of_kinds K e \<Longrightarrow> KCreate \<notin> K \<Longrightarrow> \<not> is_create e"
  by (cases e rule: is_create.cases) auto

lemma listen_split:
  "listen F this =
     seq ([emit (Log msg_creating), ext F (NestFactory_create (root_of this) (adapter this))] @
          ([apply_policies F this] @
          [seq (map (run_setup F) (setupFunctions this)),
           seq (map (apply_plugin F) (plugins this)),
           seq (map (\<lambda>interceptor. ext F (App_useGlobalInterceptors interceptor))
                  (globalInterceptors this)),
           setup_swagger F this,
           ext F (App_listen (port this)),
           report_url F this]))"
  unfolding listen_def by (simp only: append.simps)

lemma create_step:
  "seq [emit (Log msg_creating), ext F (NestFactory_create r a)] tr =
     (case respond F (tr @ [Log msg_creating, Call (NestFactory_create r a)]) (NestFactory_create r a) of
        Returns \<Rightarrow> (tr @ [Log msg_creating, Call (NestFactory_create r a),
                           Return (NestFactory_create r a)], Ok ())
      | Throws e \<Rightarrow> (tr @ [Log msg_creating, Call (NestFactory_create r a),
                            Raise (NestFactory_create r a) e], Threw e)
      | NeverReturns \<Rightarrow> (tr @ [Log msg_creating, Call (NestFactory_create r a)], Hung))"
  by (simp add: emit_def ext_def split: response.splits)

lemma listen_creates_once:
  "filter is_create (fst (listen F this tr)) =
     filter is_create tr @ [Call (NestFactory_create (root_of this) (adapter this))]"
proof -
  define rest where "rest = seq ([apply_policies F this] @
          [seq (map (run_setup F) (setupFunctions this)),
           seq (map (apply_plugin F) (plugins this)),
           seq (map (\<lambda>interceptor. ext F (App_useGlobalInterceptors interceptor))
                  (globalInterceptors this)),
           setup_swagger F this,
           ext F (App_listen (port this)),
           report_url F this])"
  have tail: "filter is_create (fst (rest tr')) = filter is_create tr'" for tr'
    unfolding rest_def
    by (rule emits_filter [OF emits_after_create]) (erule not_create_of_kinds, simp)
  have "listen F this tr =
     (case seq [emit (Log msg_creating), ext F (NestFactory_create (root_of this) (adapter this))] tr of
        (tr', Ok u) \<Rightarrow> rest tr'
      | (tr', Threw e) \<Rightarrow> (tr', Threw e)
      | (tr', Hung) \<Rightarrow> (tr', Hung))"
    unfolding listen_split rest_def by (rule seq_append)
  then show ?thesis
    by (simp add: create_step tail split: response.splits del: seq.simps)
qed


section \<open>Route prefix, CORS and versioning\<close>

lemma policy_step_skip: "filter is_policy_call (fst (skip tr)) = filter is_policy_call tr"
  by (simp add: skip_def)

lemma seq_steps:
  assumes "list_all2 (\<lambda>a xs. \<forall>tr. filter P (fst (a tr)) = filter P tr @ xs) as xss"
  shows "\<exists>ys. filter P (fst (seq as tr)) = filter P tr @ ys
           \<and> prefix ys (concat xss)
           \<and> (snd (seq as tr) = Ok () \<longrightarrow> ys = concat xss)"
  using assms
proof (induction as xss arbitrary: tr rule: list_all2_induct)
  case Nil
  show ?case by simp
next
  case (Cons a as xs xss)
  obtain tr' r where atr: "a tr = (tr', r)" by (cases "a tr")
  from Cons.hyps(1) atr have tr': "filter P tr' = filter P tr @ xs"
    by (metis fst_conv)
  show ?case
  proof (cases r)
    case (Ok u)
    from Cons.IH [of tr'] obtain ys where ys:
      "filter P (fst (seq as tr')) = filter P tr' @ ys" "prefix ys (concat xss)"
      "snd (seq as tr') = Ok () \<longrightarrow> ys = concat xss"
      by blast
    with atr Ok tr' show ?thesis
      by (intro exI [of _ "xs @ ys"]) simp
  next
    case (Threw e)
    with atr tr' show ?thesis by (intro exI [of _ xs]) simp
  next
    case Hung
    with atr tr' show ?thesis by (intro exI [of _ xs]) simp
  qed
qed

lemma policy_step_ext:
  "kind_of c = KPolicy \<Longrightarrow>
   filter is_policy_call (fst (ext F c tr)) = filter is_policy_call tr @ [Call c]"
  by (simp add: ext_def split: response.splits)

lemma policies_trace:
  assumes "globalPrefix this \<noteq> Some []"
  shows "\<exists>ys. filter is_policy_call (fst (apply_policies F this tr)) = filter is_policy_call tr @ ys
           \<and> prefix ys (policy_calls this)
           \<and> (snd (apply_policies F this tr) = Ok () \<longrightarrow> ys = policy_calls this)"
proof -
  define a1 where "a1 = (case globalPrefix this of
             None \<Rightarrow> skip
           | Some p \<Rightarrow> if truthy (JStr p) then ext F (App_setGlobalPrefix p) else skip)"
  define a2 where "a2 = (case corsOptions this of None \<Rightarrow> skip | Some c \<Rightarrow> ext F (App_enableCors c))"
  define a3 where "a3 = (case versioningOptions this of None \<Rightarrow> skip
                         | Some v \<Rightarrow> ext F (App_enableVersioning v))"
  define x1 where "x1 = (case globalPrefix this of None \<Rightarrow> [] | Some p \<Rightarrow> [Call (App_setGlobalPrefix p)])"
  define x2 where "x2 = (case corsOptions this of None \<Rightarrow> [] | Some c \<Rightarrow> [Call (App_enableCors c)])"
  define x3 where "x3 = (case versioningOptions this of None \<Rightarrow> []
                         | Some v \<Rightarrow> [Call (App_enableVersioning v)])"
  have s1: "filter is_policy_call (fst (a1 tr)) = filter is_policy_call tr @ x1" for tr
    using assms by (simp add: a1_def x1_def policy_step_ext policy_step_skip split: option.splits)
  have s2: "filter is_policy_call (fst (a2 tr)) = filter is_policy_call tr @ x2" for tr
    by (simp add: a2_def x2_def policy_step_ext policy_step_skip split: option.splits)
  have s3: "filter is_policy_call (fst (a3 tr)) = filter is_policy_call tr @ x3" for tr
    by (simp add: a3_def x3_def policy_step_ext policy_step_skip split: option.splits)
  have steps: "list_all2 (\<lambda>a xs. \<forall>tr. filter is_policy_call (fst (a tr)) = filter is_policy_call tr @ xs)
                 [a1, a2, a3] [x1, x2, x3]"
    using s1 s2 s3 by simp
  have ap: "apply_policies F this = seq [a1, a2, a3]"
    unfolding apply_policies_def a1_def a2_def a3_def ..
  have pc: "policy_calls this = concat [x1, x2, x3]"
    by (simp add: policy_calls_def x1_def x2_def x3_def)
  show ?thesis
    unfolding ap pc by (rule seq_steps [OF steps])
qed


lemma seq_single: "seq [a] tr = a tr"
  by (cases "a tr") (auto split: outcome.splits)

lemma seq_around:
  "seq (pre @ [m] @ post) tr =
     (case seq pre tr of
        (tr1, Ok u) \<Rightarrow>
          (case m tr1 of
             (tr2, Ok u) \<Rightarrow> seq post tr2
           | (tr2, Threw e) \<Rightarrow> (tr2, Threw e)
           | (tr2, Hung) \<Rightarrow> (tr2, Hung))
      | (tr1, Threw e) \<Rightarrow> (tr1, Threw e)
      | (tr1, Hung) \<Rightarrow> (tr1, Hung))"
  unfolding seq_append [of pre] seq_append [of "[m]"] seq_single ..

lemma mutations_prefix_nonempty:
  "SetGlobalPrefix p \<in> set (mutations H c) \<Longrightarrow> p \<noteq> []"
  "SetGlobalPrefix p \<in> set (mutations_all H cs) \<Longrightarrow> p \<noteq> []"
  by (induction H c and H cs rule: mutations_mutations_all.induct)
     (auto simp: startsWith_slash_def split: if_splits list.splits)

lemma foldl_mutate_prefix:
  "globalPrefix this \<noteq> Some [] \<Longrightarrow> (\<forall>p. SetGlobalPrefix p \<in> set ms \<longrightarrow> p \<noteq> []) \<Longrightarrow>
   globalPrefix (foldl mutate this ms) \<noteq> Some []"
proof (induction ms arbitrary: this)
  case Nil
  then show ?case by simp
next
  case (Cons m ms)
  have "globalPrefix (mutate this m) \<noteq> Some []"
    using Cons.prems by (cases m) auto
  with Cons show ?case by simp
qed

lemma configured_prefix_truthy:
  "globalPrefix (invoke_all H calls (new_AppInitializer H m a)) \<noteq> Some []"
  unfolding invoke_mutations
  by (rule foldl_mutate_prefix) (auto simp: new_AppInitializer_def dest: mutations_prefix_nonempty)

lemma not_policy_of_kinds: "of_kinds K e \<Longrightarrow> KPolicy \<notin> K \<Longrightarrow> \<not> is_policy_call e"
  by (cases e rule: is_policy_call.cases) auto

lemma emits_before_policies:
  "emits (of_kinds {KCreate}) (seq [emit (Log msg_creating), ext F (NestFactory_create r a)])"
  by (rule emits_seq) (auto intro: emits_emit emits_ext)

lemma listen_around_policies:
  "listen F this =
     seq ([emit (Log msg_creating), ext F (NestFactory_create (root_of this) (adapter this))] @
          [apply_policies F this] @
          [seq (map (run_setup F) (setupFunctions this)),
           seq (map (apply_plugin F) (plugins this)),
           seq (map (\<lambda>interceptor. ext F (App_useGlobalInterceptors interceptor))
                  (globalInterceptors this)),
           setup_swagger F this,
           ext F (App_listen (port this)),
           report_url F this])"
  unfolding listen_def by (simp only: append.simps)

lemma listen_policies:
  assumes "globalPrefix this \<noteq> Some []"
  shows "\<exists>ys. filter is_policy_call (fst (listen F this tr)) = filter is_policy_call tr @ ys
           \<and> prefix ys (policy_calls this)
           \<and> (snd (listen F this tr) = Ok () \<longrightarrow> ys = policy_calls this)"
proof -
  define pre where "pre = seq [emit (Log msg_creating), ext F (NestFactory_create (root_of this) (adapter this))]"
  define post where "post = seq [seq (map (run_setup F) (setupFunctions this)),
           seq (map (apply_plugin F) (plugins this)),
           seq (map (\<lambda>interceptor. ext F (App_useGlobalInterceptors interceptor))
                  (globalInterceptors this)),
           setup_swagger F this,
           ext F (App_listen (port this)),
           report_url F this]"
  have run: "listen F this tr =
     (case pre tr of
        (tr1, Ok u) \<Rightarrow>
          (case apply_policies F this tr1 of
             (tr2, Ok u) \<Rightarrow> post tr2
           | (tr2, Threw e) \<Rightarrow> (tr2, Threw e)
           | (tr2, Hung) \<Rightarrow> (tr2, Hung))
      | (tr1, Threw e) \<Rightarrow> (tr1, Threw e)
      | (tr1, Hung) \<Rightarrow> (tr1, Hung))"
    unfolding listen_around_policies pre_def post_def by (rule seq_around)
  have pre: "filter is_policy_call (fst (pre tr')) = filter is_policy_call tr'" for tr'
    unfolding pre_def
    by (rule emits_filter [OF emits_before_policies]) (erule not_policy_of_kinds, simp)
  have post: "filter is_policy_call (fst (post tr')) = filter is_policy_call tr'" for tr'
    unfolding post_def
    by (rule emits_filter [OF emits_after_policies]) (erule not_policy_of_kinds, simp)
  obtain tr1 r1 where p1: "pre tr = (tr1, r1)" by (cases "pre tr")
  obtain tr2 r2 where p2: "apply_policies F this tr1 = (tr2, r2)"
    by (cases "apply_policies F this tr1")
  from pre [of tr] p1 have f1: "filter is_policy_call tr1 = filter is_policy_call tr" by simp
  from policies_trace [OF assms, of F tr1] p2 obtain ys where
    ys: "filter is_policy_call tr2 = filter is_policy_call tr1 @ ys" "prefix ys (policy_calls this)"
        "r2 = Ok () \<longrightarrow> ys = policy_calls this"
    by auto
  show ?thesis
  proof (cases r1)
    case (Ok u)
    show ?thesis
    proof (cases r2)
      case (Ok u2)
      with \<open>r1 = Ok u\<close> p1 p2 ys f1 post [of tr2] show ?thesis
        by (intro exI [of _ ys]) (simp add: run)
    next
      case (Threw e)
      with \<open>r1 = Ok u\<close> p1 p2 ys f1 show ?thesis
        by (intro exI [of _ ys]) (simp add: run)
    next
      case Hung
      with \<open>r1 = Ok u\<close> p1 p2 ys f1 show ?thesis
        by (intro exI [of _ ys]) (simp add: run)
    qed
  next
    case (Threw e)
    with p1 f1 show ?thesis by (intro exI [of _ "[]"]) (simp add: run)
  next
    case Hung
    with p1 f1 show ?thesis by (intro exI [of _ "[]"]) (simp add: run)
  qed
qed

text \<open>
  Claim C7. In a run of \<open>listen\<close> on a builder configured by any chained calls, the
  calls that apply the route prefix, the CORS policy and the versioning policy are, in
  this order, the calls for the fields that are set: what the run made of them is always
  a prefix of that list (the run may stop early when a framework call fails or never
  returns) and the whole list when \<open>listen\<close> completes; for a field left unset there is
  no such call in the trace at all.
\<close>

theorem policies_applied_if_set:
  "(let this = invoke_all H calls (new_AppInitializer H m a);
        run = listen F this [];
        applied = filter is_policy_call (fst run)
    in prefix applied (policy_calls this)
       \<and> (snd run = Ok () \<longrightarrow> applied = policy_calls this)
       \<and> (globalPrefix this = None \<longrightarrow> (\<forall>p. Call (App_setGlobalPrefix p) \<notin> set (fst run)))
       \<and> (corsOptions this = None \<longrightarrow> (\<forall>c. Call (App_enableCors c) \<notin> set (fst run)))
       \<and> (versioningOptions this = None \<longrightarrow> (\<forall>v. Call (App_enableVersioning v) \<notin> set (fst run))))"
proof -
  define this where "this = invoke_all H calls (new_AppInitializer H m a)"
  define applied where "applied = filter is_policy_call (fst (listen F this []))"
  have ok: "globalPrefix this \<noteq> Some []"
    unfolding this_def by (rule configured_prefix_truthy)
  from listen_policies [OF ok, of F "[]"] have
    pre: "prefix applied (policy_calls this)" and
    full: "snd (listen F this []) = Ok () \<longrightarrow> applied = policy_calls this"
    by (auto simp: applied_def)
  have sub: "e \<in> set (policy_calls this)"
    if "e \<in> set (fst (listen F this []))" "is_policy_call e" for e
  proof -
    from that have "e \<in> set applied" by (simp add: applied_def)
    with pre show ?thesis by (meson set_mono_prefix subsetD)
  qed
  have n1: "Call (App_setGlobalPrefix p) \<notin> set (fst (listen F this []))" if "globalPrefix this = None" for p
    using sub [of "Call (App_setGlobalPrefix p)"] that
    by (auto simp: policy_calls_def split: option.splits)
  have n2: "Call (App_enableCors c) \<notin> set (fst (listen F this []))" if "corsOptions this = None" for c
    using sub [of "Call (App_enableCors c)"] that
    by (auto simp: policy_calls_def split: option.splits)
  have n3: "Call (App_enableVersioning v) \<notin> set (fst (listen F this []))"
    if "versioningOptions this = None" for v
    using sub [of "Call (App_enableVersioning v)"] that
    by (auto simp: policy_calls_def split: option.splits)
  from pre full n1 n2 n3 show ?thesis
    unfolding Let_def this_def [symmetric] applied_def [symmetric] by blast
qed


lemma parseInt_3000: "parseInt ''3000'' = Num 3000"
  by (simp add: parseInt_def is_space_def is_digit_def digits_val_def)

lemma mock_initializer:
  "new_AppInitializer mockHost m a =
     \<lparr>module = m, adapter = a, port = Num 3000,
      globalPrefix = None, versioningOptions = None, corsOptions = None,
      swaggerOptions = None, setupFunctions = [], plugins = [], featureModules = [],
      advancedSwaggerUiOptions = None, autoDiscoveredComponents = None,
      globalProviders = [], globalInterceptors = [], factoryGeneratedControllers = []\<rparr>"
  by (simp add: new_AppInitializer_def mockHost_def parseInt_3000)

theorem policies_applied_if_set_witness:
  "snd (listen mockNestApp
          (invoke_all mockHost [WithGlobalPrefix ''api'', WithCors None]
             (new_AppInitializer mockHost ''MockAppModule'' None)) []) = Ok ()
   \<and> versioningOptions (invoke_all mockHost [WithGlobalPrefix ''api'', WithCors None]
             (new_AppInitializer mockHost ''MockAppModule'' None)) = None
   \<and> filter is_policy_call (fst (listen mockNestApp
          (invoke_all mockHost [WithGlobalPrefix ''api'', WithCors None]
             (new_AppInitializer mockHost ''MockAppModule'' None)) [])) =
       [Call (App_setGlobalPrefix ''/api''), Call (App_enableCors [])]
   \<and> (\<forall>v. Call (App_enableVersioning v) \<notin> set (fst (listen mockNestApp
          (invoke_all mockHost [WithGlobalPrefix ''api'', WithCors None]
             (new_AppInitializer mockHost ''MockAppModule'' None)) [])))"
  using policies_applied_if_set [of mockHost "[WithGlobalPrefix ''api'', WithCors None]"
          "''MockAppModule''" None mockNestApp]
  by (simp add: mock_initializer withGlobalPrefix_def withCors_def startsWith_slash_def
        listen_def apply_policies_def setup_swagger_def report_url_def
        emit_def ext_def skip_def and_then_def mockNestApp_def policy_calls_def Let_def)


section \<open>The composition root after any chained calls\<close>

lemma mock_discovery:
  "discoverComponents (path_join mockHost) (globSync mockHost) ''/base''
     (Reflector_get mockHost) (node_require mockHost) =
   \<lparr>providers = [''MockProvider''], controllers = [''MockController'']\<rparr>"
  by (simp add: mockHost_def discoverComponents_def mockGlobSync_def mockRequire_def
        mockReflector_def try_file_def)

lemma last_discovered_none:
  "(\<forall>d. SetDiscovered d \<notin> set ms) \<Longrightarrow> last_discovered ms found = found"
  by (induction ms found rule: last_discovered.induct) auto

text \<open>
  Claim C1. A run of \<open>listen\<close> calls \<open>NestFactory.create\<close> exactly once, whatever the
  framework answers, with a root whose imports are the root module followed by the
  feature modules, whose providers are the discovered providers (none when discovery was
  never requested) followed by the global providers, and whose controllers are the
  discovered controllers followed by the explicitly supplied ones. After any sequence of
  chained calls on a new builder the feature modules and the global providers are what
  the calls registered, in the order of the calls, and no controller was supplied
  explicitly (no chained call does so).
\<close>

theorem composition_root_synthesized:
  "(let this = invoke_all H calls (new_AppInitializer H m a);
        ms = mutations_all H calls;
        found = last_discovered ms None
    in module this = m \<and> adapter this = a
       \<and> featureModules this = pushed_modules ms
       \<and> globalProviders this = pushed_providers ms
       \<and> factoryGeneratedControllers this = []
       \<and> autoDiscoveredComponents this = found
       \<and> ((\<forall>d. SetDiscovered d \<notin> set ms) \<longrightarrow> found = None)
       \<and> filter is_create (fst (listen F this [])) =
           [Call (NestFactory_create
              \<lparr>rootImports = TypeModule m # pushed_modules ms,
               allControllers = (case found of None \<Rightarrow> [] | Some d \<Rightarrow> controllers d) @ [],
               allProviders = (case found of None \<Rightarrow> [] | Some d \<Rightarrow> map ClassProvider (providers d))
                              @ pushed_providers ms\<rparr> a)])
   \<and> (\<forall>this tr. filter is_create (fst (listen F this tr)) =
         filter is_create tr @
           [Call (NestFactory_create
              \<lparr>rootImports = TypeModule (module this) # featureModules this,
               allControllers =
                 (case autoDiscoveredComponents this of None \<Rightarrow> [] | Some d \<Rightarrow> controllers d)
                 @ factoryGeneratedControllers this,
               allProviders =
                 (case autoDiscoveredComponents this of
                    None \<Rightarrow> [] | Some d \<Rightarrow> map ClassProvider (providers d))
                 @ globalProviders this\<rparr> (adapter this))])"
proof -
  define this where "this = invoke_all H calls (new_AppInitializer H m a)"
  define ms where "ms = mutations_all H calls"
  define found where "found = last_discovered ms None"
  have conf: "this = foldl mutate (new_AppInitializer H m a) ms"
    unfolding this_def ms_def by (rule invoke_mutations)
  have fields: "module this = m" "adapter this = a" "featureModules this = pushed_modules ms"
    "globalProviders this = pushed_providers ms" "factoryGeneratedControllers this = []"
    "autoDiscoveredComponents this = found"
    unfolding conf foldl_mutate_fields found_def by (simp_all add: new_AppInitializer_def)
  have never: "(\<forall>d. SetDiscovered d \<notin> set ms) \<longrightarrow> found = None"
    unfolding found_def by (simp add: last_discovered_none)
  have general: "filter is_create (fst (listen F s tr)) =
         filter is_create tr @
           [Call (NestFactory_create
              \<lparr>rootImports = TypeModule (module s) # featureModules s,
               allControllers =
                 (case autoDiscoveredComponents s of None \<Rightarrow> [] | Some d \<Rightarrow> controllers d)
                 @ factoryGeneratedControllers s,
               allProviders =
                 (case autoDiscoveredComponents s of
                    None \<Rightarrow> [] | Some d \<Rightarrow> map ClassProvider (providers d))
                 @ globalProviders s\<rparr> (adapter s))]" for s tr
    using listen_creates_once [of F s tr] by (simp add: root_of_def)
  have once: "filter is_create (fst (listen F this [])) =
           [Call (NestFactory_create
              \<lparr>rootImports = TypeModule m # pushed_modules ms,
               allControllers = (case found of None \<Rightarrow> [] | Some d \<Rightarrow> controllers d) @ [],
               allProviders = (case found of None \<Rightarrow> [] | Some d \<Rightarrow> map ClassProvider (providers d))
                              @ pushed_providers ms\<rparr> a)]"
    using general [of this "[]"] by (simp add: fields)
  from fields never once general show ?thesis
    unfolding Let_def this_def [symmetric] ms_def [symmetric] found_def [symmetric] by blast
qed

theorem composition_root_synthesized_witness:
  "(\<forall>d. SetDiscovered d \<notin> set (mutations_all mockHost
       [WithMetrics, When True [UseGlobalGuard ''MockGuard'', WithValidatedConfig ''EnvSchema''],
        UseGlobalFilter ''MockFilter'']))
   \<and> filter is_create (fst (listen mockNestApp (invoke_all mockHost
       [WithMetrics, When True [UseGlobalGuard ''MockGuard'', WithValidatedConfig ''EnvSchema''],
        UseGlobalFilter ''MockFilter''] (new_AppInitializer mockHost ''MockAppModule'' None)) [])) =
      [Call (NestFactory_create
         \<lparr>rootImports = [TypeModule ''MockAppModule'', MetricsModule_forRoot,
                         ConfigModule_forRoot ''EnvSchema''],
          allControllers = [],
          allProviders = [UseClass APP_GUARD ''MockGuard'', UseClass APP_FILTER ''MockFilter'']\<rparr>
         None)]
   \<and> filter is_create (fst (listen failingPlugins (invoke_all mockHost
       [UseGlobalGuard ''MockGuard'', WithAutoDiscovery ''/base'', WithCaching
          \<lparr>redisUrlEnvKey = None, defaultTtlInSeconds = Some 60\<rparr>]
       (new_AppInitializer mockHost ''MockAppModule'' (Some (HttpAdapter ''fastify'')))) [])) =
      [Call (NestFactory_create
         \<lparr>rootImports = [TypeModule ''MockAppModule'', CacheModule_registerAsync ''REDIS_URL'' 60],
          allControllers = [''MockController''],
          allProviders = [ClassProvider ''MockProvider'', UseClass APP_GUARD ''MockGuard'']\<rparr>
         (Some (HttpAdapter ''fastify'')))]"
  using composition_root_synthesized [of mockHost
       "[WithMetrics, When True [UseGlobalGuard ''MockGuard'', WithValidatedConfig ''EnvSchema''],
        UseGlobalFilter ''MockFilter'']" "''MockAppModule''" None mockNestApp]
    composition_root_synthesized [of mockHost
       "[UseGlobalGuard ''MockGuard'', WithAutoDiscovery ''/base'', WithCaching
          \<lparr>redisUrlEnvKey = None, defaultTtlInSeconds = Some 60\<rparr>]" "''MockAppModule''"
       "Some (HttpAdapter ''fastify'')" failingPlugins]
  by (simp add: Let_def mock_discovery createCachingStarter_def)

section \<open>The route prefix\<close>

text \<open>
  Claim C9. \<open>withGlobalPrefix\<close> stores a prefix that starts with the path separator:
  \<open>api\<close> is stored as \<open>/api\<close>, a prefix that already starts with \<open>/\<close> is stored
  unchanged, and storing the stored prefix again changes nothing.
\<close>

theorem global_prefix_normalized:
  "globalPrefix (invoke H (WithGlobalPrefix ''api'') this) = Some ''/api''
   \<and> (startsWith_slash p \<longrightarrow> globalPrefix (invoke H (WithGlobalPrefix p) this) = Some p)
   \<and> (\<exists>q. globalPrefix (invoke H (WithGlobalPrefix p) this) = Some q \<and> startsWith_slash q
          \<and> invoke H (WithGlobalPrefix q) (invoke H (WithGlobalPrefix p) this) =
            invoke H (WithGlobalPrefix p) this)"
  by (simp add: withGlobalPrefix_def startsWith_slash_def)

theorem global_prefix_normalized_witness:
  "startsWith_slash ''/already/prefixed''
   \<and> globalPrefix (invoke mockHost (WithGlobalPrefix ''/already/prefixed'')
        (new_AppInitializer mockHost ''MockAppModule'' None)) = Some ''/already/prefixed''"
  using global_prefix_normalized [of mockHost "new_AppInitializer mockHost ''MockAppModule'' None"
          "''/already/prefixed''"]
  by (simp add: startsWith_slash_def)

section \<open>The entry point without a configuration callback\<close>

text \<open>
  Claim C10. Called with an adapter and no configuration callback, \<open>bootstrap\<close> throws
  a \<open>TypeError\<close> before the \<open>try\<close> block is entered: the trace is empty (nothing is
  logged, no builder is made, the process does not exit) and the error goes to the
  caller. As \<open>bootstrap\<close> is an \<open>async\<close> function, the caller receives the error as the
  rejection of the promise returned.
\<close>

theorem bootstrap_without_configurator:
  "bootstrap H F m (AdapterArg a) None =
     ([], Rejected (ErrorObj ''TypeError'' msg_no_configurator (stack_trace H)))"
  by (simp add: bootstrap_def)

section \<open>The plugins\<close>

lemma apply_plugin_run:
  "apply_plugin F p tr =
     (case respond F (tr @ [Log (msg_plugin @ constructor_name p), Call (Plugin_apply p)]) (Plugin_apply p) of
        Returns \<Rightarrow> (tr @ [Log (msg_plugin @ constructor_name p), Call (Plugin_apply p),
                           Return (Plugin_apply p)], Ok ())
      | Throws e \<Rightarrow> (tr @ [Log (msg_plugin @ constructor_name p), Call (Plugin_apply p),
                            Raise (Plugin_apply p) e], Threw e)
      | NeverReturns \<Rightarrow> (tr @ [Log (msg_plugin @ constructor_name p), Call (Plugin_apply p)], Hung))"
  by (simp add: apply_plugin_def emit_def ext_def split: response.splits)

lemma plugins_loop:
  "\<exists>k rest. k \<le> length ps
     \<and> filter is_plugin_event (fst (seq (map (apply_plugin F) ps) tr)) =
         filter is_plugin_event tr @ completed (take k ps) @ rest
     \<and> (rest = [] \<and> k = length ps \<and> snd (seq (map (apply_plugin F) ps) tr) = Ok ()
        \<or> k < length ps \<and> rest = [Call (Plugin_apply (ps ! k))]
            \<and> snd (seq (map (apply_plugin F) ps) tr) = Hung
            \<and> last (fst (seq (map (apply_plugin F) ps) tr)) = Call (Plugin_apply (ps ! k))
        \<or> k < length ps
            \<and> (\<exists>e. rest = [Call (Plugin_apply (ps ! k)), Raise (Plugin_apply (ps ! k)) e]
                  \<and> snd (seq (map (apply_plugin F) ps) tr) = Threw e
                  \<and> last (fst (seq (map (apply_plugin F) ps) tr)) = Raise (Plugin_apply (ps ! k)) e))"
proof (induction ps arbitrary: tr)
  case Nil
  show ?case by (intro exI [of _ 0] exI [of _ "[]"]) (simp add: completed_def)
next
  case (Cons p ps)
  define tr1 where "tr1 = tr @ [Log (msg_plugin @ constructor_name p), Call (Plugin_apply p)]"
  show ?case
  proof (cases "respond F tr1 (Plugin_apply p)")
    case Returns
    define tr2 where "tr2 = tr1 @ [Return (Plugin_apply p)]"
    from Returns have step: "apply_plugin F p tr = (tr2, Ok ())"
      by (simp add: apply_plugin_run tr1_def tr2_def)
    then have run: "seq (map (apply_plugin F) (p # ps)) tr = seq (map (apply_plugin F) ps) tr2"
      by simp
    have f2: "filter is_plugin_event tr2 =
        filter is_plugin_event tr @ [Call (Plugin_apply p), Return (Plugin_apply p)]"
      by (simp add: tr2_def tr1_def)
    from Cons [of tr2] obtain k rest where k: "k \<le> length ps"
      and evs: "filter is_plugin_event (fst (seq (map (apply_plugin F) ps) tr2)) =
         filter is_plugin_event tr2 @ completed (take k ps) @ rest"
      and alt: "rest = [] \<and> k = length ps \<and> snd (seq (map (apply_plugin F) ps) tr2) = Ok ()
        \<or> k < length ps \<and> rest = [Call (Plugin_apply (ps ! k))]
            \<and> snd (seq (map (apply_plugin F) ps) tr2) = Hung
            \<and> last (fst (seq (map (apply_plugin F) ps) tr2)) = Call (Plugin_apply (ps ! k))
        \<or> k < length ps
            \<and> (\<exists>e. rest = [Call (Plugin_apply (ps ! k)), Raise (Plugin_apply (ps ! k)) e]
                  \<and> snd (seq (map (apply_plugin F) ps) tr2) = Threw e
                  \<and> last (fst (seq (map (apply_plugin F) ps) tr2)) = Raise (Plugin_apply (ps ! k)) e)"
      by blast
    show ?thesis
      unfolding run
      using k evs alt
      by (intro exI [of _ "Suc k"] exI [of _ rest]) (auto simp: f2 completed_def)
  next
    case (Throws e)
    then have step: "seq (map (apply_plugin F) (p # ps)) tr =
        (tr1 @ [Raise (Plugin_apply p) e], Threw e)"
      by (simp add: apply_plugin_run tr1_def)
    show ?thesis
      unfolding step
      by (intro exI [of _ 0] exI [of _ "[Call (Plugin_apply p), Raise (Plugin_apply p) e]"])
         (simp add: tr1_def completed_def)
  next
    case NeverReturns
    then have step: "seq (map (apply_plugin F) (p # ps)) tr = (tr1, Hung)"
      by (simp add: apply_plugin_run tr1_def)
    show ?thesis
      unfolding step
      by (intro exI [of _ 0] exI [of _ "[Call (Plugin_apply p)]"])
         (simp add: tr1_def completed_def)
  qed
qed


lemma not_plugin_of_kinds: "of_kinds K e \<Longrightarrow> KPlugin \<notin> K \<Longrightarrow> \<not> is_plugin_event e"
  by (cases e rule: is_plugin_event.cases) auto

lemma emits_before_plugins:
  "emits (of_kinds {KCreate, KPolicy, KSetup})
     (seq [emit (Log msg_creating), ext F (NestFactory_create r a), apply_policies F this,
           seq (map (run_setup F) (setupFunctions this))])"
proof (rule emits_seq)
  fix b
  assume "b \<in> set [emit (Log msg_creating), ext F (NestFactory_create r a), apply_policies F this,
           seq (map (run_setup F) (setupFunctions this))]"
  then consider "b = emit (Log msg_creating)" | "b = ext F (NestFactory_create r a)"
    | "b = apply_policies F this" | "b = seq (map (run_setup F) (setupFunctions this))"
    by auto
  then show "emits (of_kinds {KCreate, KPolicy, KSetup}) b"
  proof cases
    case 1 then show ?thesis by (simp add: emits_emit)
  next
    case 2 then show ?thesis by (simp add: emits_ext)
  next
    case 3 then show ?thesis using emits_kinds_mono [OF emits_policies] by simp
  next
    case 4 then show ?thesis using emits_kinds_mono [OF emits_setups] by simp
  qed
qed

lemma emits_after_plugins:
  "emits (of_kinds {KInterceptor, KSwagger, KListen, KUrl})
     (seq [seq (map (\<lambda>interceptor. ext F (App_useGlobalInterceptors interceptor))
                  (globalInterceptors this)),
           setup_swagger F this,
           ext F (App_listen (port this)),
           report_url F this])"
proof (rule emits_seq)
  fix b
  assume "b \<in> set [seq (map (\<lambda>interceptor. ext F (App_useGlobalInterceptors interceptor))
                  (globalInterceptors this)),
           setup_swagger F this,
           ext F (App_listen (port this)),
           report_url F this]"
  then consider "b = seq (map (\<lambda>interceptor. ext F (App_useGlobalInterceptors interceptor))
                  (globalInterceptors this))"
    | "b = setup_swagger F this" | "b = ext F (App_listen (port this))" | "b = report_url F this"
    by auto
  then show "emits (of_kinds {KInterceptor, KSwagger, KListen, KUrl}) b"
  proof cases
    case 1 then show ?thesis using emits_kinds_mono [OF emits_interceptors] by simp
  next
    case 2 then show ?thesis using emits_kinds_mono [OF emits_swagger] by simp
  next
    case 3 then show ?thesis using emits_kinds_mono [OF emits_listen_call] by simp
  next
    case 4 then show ?thesis using emits_kinds_mono [OF emits_report_url] by simp
  qed
qed

lemma listen_around_plugins:
  "listen F this =
     seq ([emit (Log msg_creating), ext F (NestFactory_create (root_of this) (adapter this)),
           apply_policies F this, seq (map (run_setup F) (setupFunctions this))] @
          [seq (map (apply_plugin F) (plugins this))] @
          [seq (map (\<lambda>interceptor. ext F (App_useGlobalInterceptors interceptor))
                  (globalInterceptors this)),
           setup_swagger F this,
           ext F (App_listen (port this)),
           report_url F this])"
  unfolding listen_def by (simp only: append.simps)

lemma listen_plugins:
  "\<exists>k rest. k \<le> length (plugins this)
     \<and> filter is_plugin_event (fst (listen F this tr)) =
         filter is_plugin_event tr @ completed (take k (plugins this)) @ rest
     \<and> (rest = [] \<and> (k = 0 \<or> k = length (plugins this))
            \<and> (snd (listen F this tr) = Ok () \<longrightarrow> k = length (plugins this))
        \<or> k < length (plugins this) \<and> rest = [Call (Plugin_apply (plugins this ! k))]
            \<and> snd (listen F this tr) = Hung
            \<and> last (fst (listen F this tr)) = Call (Plugin_apply (plugins this ! k))
        \<or> k < length (plugins this)
            \<and> (\<exists>e. rest = [Call (Plugin_apply (plugins this ! k)),
                           Raise (Plugin_apply (plugins this ! k)) e]
                  \<and> snd (listen F this tr) = Threw e
                  \<and> last (fst (listen F this tr)) = Raise (Plugin_apply (plugins this ! k)) e))"
proof -
  define ps where "ps = plugins this"
  define pre where "pre = seq [emit (Log msg_creating),
      ext F (NestFactory_create (root_of this) (adapter this)),
      apply_policies F this, seq (map (run_setup F) (setupFunctions this))]"
  define loop where "loop = seq (map (apply_plugin F) ps)"
  define post where "post = seq [seq (map (\<lambda>interceptor. ext F (App_useGlobalInterceptors interceptor))
                  (globalInterceptors this)),
           setup_swagger F this,
           ext F (App_listen (port this)),
           report_url F this]"
  have run: "listen F this tr =
     (case pre tr of
        (tr1, Ok u) \<Rightarrow>
          (case loop tr1 of
             (tr2, Ok u) \<Rightarrow> post tr2
           | (tr2, Threw e) \<Rightarrow> (tr2, Threw e)
           | (tr2, Hung) \<Rightarrow> (tr2, Hung))
      | (tr1, Threw e) \<Rightarrow> (tr1, Threw e)
      | (tr1, Hung) \<Rightarrow> (tr1, Hung))"
    unfolding listen_around_plugins pre_def post_def loop_def ps_def by (rule seq_around)
  have pre: "filter is_plugin_event (fst (pre tr')) = filter is_plugin_event tr'" for tr'
    unfolding pre_def
    by (rule emits_filter [OF emits_before_plugins]) (erule not_plugin_of_kinds, simp)
  have post: "filter is_plugin_event (fst (post tr')) = filter is_plugin_event tr'" for tr'
    unfolding post_def
    by (rule emits_filter [OF emits_after_plugins]) (erule not_plugin_of_kinds, simp)
  obtain tr1 r1 where p1: "pre tr = (tr1, r1)" by (cases "pre tr")
  obtain tr2 r2 where p2: "loop tr1 = (tr2, r2)" by (cases "loop tr1")
  from pre [of tr] p1 have f1: "filter is_plugin_event tr1 = filter is_plugin_event tr" by simp
  from plugins_loop [of ps F tr1] p2 obtain k rest where k: "k \<le> length ps"
    and evs: "filter is_plugin_event tr2 = filter is_plugin_event tr1 @ completed (take k ps) @ rest"
    and alt: "rest = [] \<and> k = length ps \<and> r2 = Ok ()
        \<or> k < length ps \<and> rest = [Call (Plugin_apply (ps ! k))] \<and> r2 = Hung
            \<and> last tr2 = Call (Plugin_apply (ps ! k))
        \<or> k < length ps
            \<and> (\<exists>e. rest = [Call (Plugin_apply (ps ! k)), Raise (Plugin_apply (ps ! k)) e]
                  \<and> r2 = Threw e \<and> last tr2 = Raise (Plugin_apply (ps ! k)) e)"
    unfolding loop_def by auto
  show ?thesis
    unfolding ps_def [symmetric]
  proof (cases r1)
    case (Ok u)
    show "\<exists>k rest. k \<le> length ps
     \<and> filter is_plugin_event (fst (listen F this tr)) =
         filter is_plugin_event tr @ completed (take k ps) @ rest
     \<and> (rest = [] \<and> (k = 0 \<or> k = length ps)
            \<and> (snd (listen F this tr) = Ok () \<longrightarrow> k = length ps)
        \<or> k < length ps \<and> rest = [Call (Plugin_apply (ps ! k))]
            \<and> snd (listen F this tr) = Hung
            \<and> last (fst (listen F this tr)) = Call (Plugin_apply (ps ! k))
        \<or> k < length ps
            \<and> (\<exists>e. rest = [Call (Plugin_apply (ps ! k)),
                           Raise (Plugin_apply (ps ! k)) e]
                  \<and> snd (listen F this tr) = Threw e
                  \<and> last (fst (listen F this tr)) = Raise (Plugin_apply (ps ! k)) e))"
    proof (cases r2)
      case (Ok u2)
      with alt have "rest = []" "k = length ps" by auto
      with \<open>r1 = Ok u\<close> Ok p1 p2 evs f1 post [of tr2] show ?thesis
        by (intro exI [of _ k] exI [of _ "[]"]) (simp add: run)
    next
      case (Threw e)
      with \<open>r1 = Ok u\<close> p1 p2 have "listen F this tr = (tr2, Threw e)" by (simp add: run)
      with Threw k evs alt f1 show ?thesis
        by (intro exI [of _ k] exI [of _ rest]) auto
    next
      case Hung
      with \<open>r1 = Ok u\<close> p1 p2 have "listen F this tr = (tr2, Hung)" by (simp add: run)
      with Hung k evs alt f1 show ?thesis
        by (intro exI [of _ k] exI [of _ rest]) auto
    qed
  next
    case (Threw e)
    with p1 f1 show "\<exists>k rest. k \<le> length ps
     \<and> filter is_plugin_event (fst (listen F this tr)) =
         filter is_plugin_event tr @ completed (take k ps) @ rest
     \<and> (rest = [] \<and> (k = 0 \<or> k = length ps)
            \<and> (snd (listen F this tr) = Ok () \<longrightarrow> k = length ps)
        \<or> k < length ps \<and> rest = [Call (Plugin_apply (ps ! k))]
            \<and> snd (listen F this tr) = Hung
            \<and> last (fst (listen F this tr)) = Call (Plugin_apply (ps ! k))
        \<or> k < length ps
            \<and> (\<exists>e. rest = [Call (Plugin_apply (ps ! k)),
                           Raise (Plugin_apply (ps ! k)) e]
                  \<and> snd (listen F this tr) = Threw e
                  \<and> last (fst (listen F this tr)) = Raise (Plugin_apply (ps ! k)) e))"
      by (intro exI [of _ 0] exI [of _ "[]"]) (simp add: run completed_def)
  next
    case Hung
    with p1 f1 show "\<exists>k rest. k \<le> length ps
     \<and> filter is_plugin_event (fst (listen F this tr)) =
         filter is_plugin_event tr @ completed (take k ps) @ rest
     \<and> (rest = [] \<and> (k = 0 \<or> k = length ps)
            \<and> (snd (listen F this tr) = Ok () \<longrightarrow> k = length ps)
        \<or> k < length ps \<and> rest = [Call (Plugin_apply (ps ! k))]
            \<and> snd (listen F this tr) = Hung
            \<and> last (fst (listen F this tr)) = Call (Plugin_apply (ps ! k))
        \<or> k < length ps
            \<and> (\<exists>e. rest = [Call (Plugin_apply (ps ! k)),
                           Raise (Plugin_apply (ps ! k)) e]
                  \<and> snd (listen F this tr) = Threw e
                  \<and> last (fst (listen F this tr)) = Raise (Plugin_apply (ps ! k)) e))"
      by (intro exI [of _ 0] exI [of _ "[]"]) (simp add: run completed_def)
  qed
qed


text \<open>
  Claim C2. In a run of \<open>listen\<close> the events of plugin applications are, for some
  number \<open>k\<close> of plugins, the applications of the first \<open>k\<close> plugins in registration
  order, each call followed by its return before the next call, and then: nothing more
  (no plugin was reached, or all were applied; all were when \<open>listen\<close> completes); or the
  call of the next plugin that never settles, where the run stops; or the call of the
  next plugin and its throw or rejection, which is the last event of the run and the
  error that \<open>listen\<close> throws. So a plugin is applied only after every plugin before
  it has returned, and after a failure no later plugin (and nothing else) is executed.
  The plugins of a configured builder are those the chained calls registered, in order.
\<close>

theorem plugins_applied_sequentially:
  "plugins (invoke_all H calls (new_AppInitializer H m a)) = pushed_plugins (mutations_all H calls)
   \<and> (let run = listen F this [];
           ps = plugins this;
           evs = filter is_plugin_event (fst run)
       in \<exists>k rest. k \<le> length ps
            \<and> evs = completed (take k ps) @ rest
            \<and> (rest = [] \<and> (k = 0 \<or> k = length ps) \<and> (snd run = Ok () \<longrightarrow> k = length ps)
               \<or> k < length ps \<and> rest = [Call (Plugin_apply (ps ! k))]
                   \<and> snd run = Hung \<and> last (fst run) = Call (Plugin_apply (ps ! k))
               \<or> k < length ps
                   \<and> (\<exists>e. rest = [Call (Plugin_apply (ps ! k)), Raise (Plugin_apply (ps ! k)) e]
                         \<and> snd run = Threw e
                         \<and> last (fst run) = Raise (Plugin_apply (ps ! k)) e)))"
proof -
  have registered: "plugins (invoke_all H calls (new_AppInitializer H m a)) =
      pushed_plugins (mutations_all H calls)"
    unfolding invoke_mutations foldl_mutate_fields by (simp add: new_AppInitializer_def)
  from listen_plugins [of this F "[]"] registered show ?thesis
    unfolding Let_def by simp
qed

theorem plugins_applied_sequentially_witness:
  "filter is_plugin_event (fst (listen failingPlugins
       (invoke_all mockHost [WithPlugin (CustomPlugin ''First''), WithPlugin (CustomPlugin ''Failing''),
                             WithPlugin (CustomPlugin ''Third'')]
          (new_AppInitializer mockHost ''MockAppModule'' None)) [])) =
     [Call (Plugin_apply (CustomPlugin ''First'')), Return (Plugin_apply (CustomPlugin ''First'')),
      Call (Plugin_apply (CustomPlugin ''Failing'')),
      Raise (Plugin_apply (CustomPlugin ''Failing'')) (ErrorObj ''Error'' ''plugin failed'' None)]
   \<and> snd (listen failingPlugins
       (invoke_all mockHost [WithPlugin (CustomPlugin ''First''), WithPlugin (CustomPlugin ''Failing''),
                             WithPlugin (CustomPlugin ''Third'')]
          (new_AppInitializer mockHost ''MockAppModule'' None)) []) =
     Threw (ErrorObj ''Error'' ''plugin failed'' None)
   \<and> snd (listen mockNestApp
       (invoke_all mockHost [WithPlugin (CustomPlugin ''First''), WithPlugin (CustomPlugin ''Failing''),
                             WithPlugin (CustomPlugin ''Third'')]
          (new_AppInitializer mockHost ''MockAppModule'' None)) []) = Ok ()
   \<and> filter is_plugin_event (fst (listen mockNestApp
       (invoke_all mockHost [WithPlugin (CustomPlugin ''First''), WithPlugin (CustomPlugin ''Failing''),
                             WithPlugin (CustomPlugin ''Third'')]
          (new_AppInitializer mockHost ''MockAppModule'' None)) [])) =
     completed [CustomPlugin ''First'', CustomPlugin ''Failing'', CustomPlugin ''Third'']"
  using plugins_applied_sequentially [of mockHost
          "[WithPlugin (CustomPlugin ''First''), WithPlugin (CustomPlugin ''Failing''),
            WithPlugin (CustomPlugin ''Third'')]" "''MockAppModule''" None mockNestApp
          "invoke_all mockHost [WithPlugin (CustomPlugin ''First''), WithPlugin (CustomPlugin ''Failing''),
                             WithPlugin (CustomPlugin ''Third'')]
          (new_AppInitializer mockHost ''MockAppModule'' None)"]
  by (simp add: mock_initializer withPlugin_def
        listen_def apply_policies_def apply_plugin_def setup_swagger_def report_url_def
        emit_def ext_def skip_def and_then_def mockNestApp_def failingPlugins_def completed_def Let_def)

section \<open>Failures of bootstrap\<close>

lemma emits_listen: "emits (of_kinds UNIV) (listen F this)"
  unfolding listen_def
proof (rule emits_seq)
  fix b
  assume "b \<in> set [emit (Log msg_creating),
          ext F (NestFactory_create (root_of this) (adapter this)),
          apply_policies F this,
          seq (map (run_setup F) (setupFunctions this)),
          seq (map (apply_plugin F) (plugins this)),
          seq (map (\<lambda>interceptor. ext F (App_useGlobalInterceptors interceptor))
                 (globalInterceptors this)),
          setup_swagger F this,
          ext F (App_listen (port this)),
          report_url F this]"
  then consider "b = emit (Log msg_creating)"
    | "b = ext F (NestFactory_create (root_of this) (adapter this))"
    | "b = apply_policies F this"
    | "b = seq (map (run_setup F) (setupFunctions this))"
    | "b = seq (map (apply_plugin F) (plugins this))"
    | "b = seq (map (\<lambda>interceptor. ext F (App_useGlobalInterceptors interceptor))
                 (globalInterceptors this))"
    | "b = setup_swagger F this" | "b = ext F (App_listen (port this))" | "b = report_url F this"
    by auto
  then show "emits (of_kinds UNIV) b"
  proof cases
    case 1 then show ?thesis by (simp add: emits_emit)
  next
    case 2 then show ?thesis by (simp add: emits_ext)
  next
    case 3 then show ?thesis using emits_kinds_mono [OF emits_policies] by simp
  next
    case 4 then show ?thesis using emits_kinds_mono [OF emits_setups] by simp
  next
    case 5 then show ?thesis using emits_kinds_mono [OF emits_plugins] by simp
  next
    case 6 then show ?thesis using emits_kinds_mono [OF emits_interceptors] by simp
  next
    case 7 then show ?thesis using emits_kinds_mono [OF emits_swagger] by simp
  next
    case 8 then show ?thesis using emits_kinds_mono [OF emits_listen_call] by simp
  next
    case 9 then show ?thesis using emits_kinds_mono [OF emits_report_url] by simp
  qed
qed

lemma not_report_of_kinds: "of_kinds K e \<Longrightarrow> \<not> is_failure_report e"
  by (cases e) auto

lemma listen_reports_nothing:
  "filter is_failure_report (fst (listen F this [Log msg_starting])) = []"
  using emits_filter [OF emits_listen, of is_failure_report F this "[Log msg_starting]"]
  by (simp add: not_report_of_kinds)

lemma bootstrap_run:
  assumes "arg = ConfiguratorArg cfg \<and> ad = None \<or> arg = AdapterArg a \<and> third = Some cfg \<and> ad = Some a"
  shows "bootstrap H F m arg third =
     (case call_configurator H cfg (new_AppInitializer H m ad) of
        Inl e \<Rightarrow> ([Log msg_starting, log_failure e, ProcessExit 1], Exited 1)
      | Inr this \<Rightarrow>
          (case listen F this [Log msg_starting] of
             (tr, Ok u) \<Rightarrow> (tr, Fulfilled)
           | (tr, Hung) \<Rightarrow> (tr, Pending)
           | (tr, Threw e) \<Rightarrow> (tr @ [log_failure e, ProcessExit 1], Exited 1)))"
  using assms
  by (auto simp: bootstrap_def Let_def split: sum.splits prod.splits outcome.splits)

lemma run_body_throw:
  "run_body H (map Invoke calls @ ThrowValue e # later) this = (invoke_all H calls this, Some e)"
  by (induction calls arbitrary: this) simp_all

lemma sync_callback_throw:
  "call_configurator H (SyncFunction (map Invoke calls @ ThrowValue e # later)) this = Inl e"
  by (simp add: run_body_throw)

text \<open>
  Claim C3, as stated, fails: an \<open>async\<close> configuration callback that throws
  \<open>Error("X")\<close> does not throw to \<open>bootstrap\<close>, which does not await what the callback
  returns. Nothing is caught: there is no error log entry and no \<open>process.exit\<close>, and
  \<open>listen\<close> runs and starts the listener.
\<close>

theorem async_callback_failure_not_caught:
  "bootstrap mockHost mockNestApp ''MockAppModule''
     (ConfiguratorArg (AsyncFunction [ThrowValue (ErrorObj ''Error'' ''X'' None)])) None =
     ([Log msg_starting, Log msg_creating,
       Call (NestFactory_create
              \<lparr>rootImports = [TypeModule ''MockAppModule''], allControllers = [],
                allProviders = []\<rparr> None),
       Return (NestFactory_create
              \<lparr>rootImports = [TypeModule ''MockAppModule''], allControllers = [],
                allProviders = []\<rparr> None),
       Call (App_listen (Num 3000)), Return (App_listen (Num 3000)),
       Call App_getUrl, Return App_getUrl,
       Log (msg_running @ ''http://localhost:3000'')], Fulfilled)
   \<and> filter is_failure_report (fst (bootstrap mockHost mockNestApp ''MockAppModule''
        (ConfiguratorArg (AsyncFunction [ThrowValue (ErrorObj ''Error'' ''X'' None)])) None)) = []
   \<and> Call (App_listen (Num 3000)) \<in> set (fst (bootstrap mockHost mockNestApp ''MockAppModule''
        (ConfiguratorArg (AsyncFunction [ThrowValue (ErrorObj ''Error'' ''X'' None)])) None))"
  by (simp add: bootstrap_def mock_initializer root_of_def
        listen_def apply_policies_def setup_swagger_def report_url_def
        emit_def ext_def skip_def and_then_def mockNestApp_def Let_def)

text \<open>
  Claim C3, amended. When \<open>bootstrap\<close> is given a configuration callback (alone, or
  after an adapter), an error that the call of the callback throws, or that \<open>listen\<close>
  throws, is handled by the one \<open>catch\<close> clause: the run ends with one error log entry
  and \<open>process.exit(1)\<close>, and these are the only error log entry and the only exit of
  the run. The entry has the message of the error and its stack when the error is an
  \<open>Error\<close> object, and the generic message with the raw value otherwise. When the call
  of the callback throws, nothing but the first log entry precedes the report: no
  framework call is made, so the listener is never started. Without such an error
  there is no error entry and no exit. An ordinary callback throws what its body
  throws, wherever in the body: for \<open>Error("X")\<close> the run is the first log entry, the
  entry ending in \<open>X\<close> and the exit. The call of an \<open>async\<close> callback never throws.
\<close>

theorem bootstrap_failure_handled:
  assumes "arg = ConfiguratorArg cfg \<and> ad = None \<or> arg = AdapterArg a \<and> third = Some cfg \<and> ad = Some a"
  shows "(let initializer = new_AppInitializer H m ad;
              tr = fst (bootstrap H F m arg third);
              ending = snd (bootstrap H F m arg third)
          in (case failure_of H F initializer cfg of
                Some error \<Rightarrow>
                  ending = Exited 1
                  \<and> filter is_failure_report tr = [log_failure error, ProcessExit 1]
                  \<and> drop (length tr - 2) tr = [log_failure error, ProcessExit 1]
              | None \<Rightarrow>
                  filter is_failure_report tr = [] \<and> (ending = Fulfilled \<or> ending = Pending))
             \<and> (case call_configurator H cfg initializer of
                   Inl error \<Rightarrow> tr = [Log msg_starting, log_failure error, ProcessExit 1]
                               \<and> (\<forall>c. Call c \<notin> set tr)
                 | Inr this \<Rightarrow> take (length (fst (listen F this [Log msg_starting]))) tr =
                               fst (listen F this [Log msg_starting])))
         \<and> log_failure (ErrorObj cls message stack) = LogError (msg_failed @ message) (Stack stack)
         \<and> log_failure (NonError v) = LogError msg_failed_nonstandard (Raw v)
         \<and> log_failure (ErrorObj ''Error'' ''X'' stack) = LogError (msg_failed @ ''X'') (Stack stack)
         \<and> call_configurator H (SyncFunction (map Invoke calls @ ThrowValue thrown_value # later)) builder =
             Inl thrown_value
         \<and> bootstrap H F m
              (ConfiguratorArg (SyncFunction (map Invoke calls @ ThrowValue (ErrorObj ''Error'' ''X'' stack) # later)))
              any =
             ([Log msg_starting, LogError (msg_failed @ ''X'') (Stack stack), ProcessExit 1], Exited 1)
         \<and> (\<forall>e. call_configurator H (AsyncFunction body) builder \<noteq> Inl e)"
proof -
  define initializer where "initializer = new_AppInitializer H m ad"
  note run = bootstrap_run [OF assms, of H F m, folded initializer_def]
  have forms: "log_failure (ErrorObj cls message stack) = LogError (msg_failed @ message) (Stack stack)"
    "log_failure (NonError v) = LogError msg_failed_nonstandard (Raw v)"
    "log_failure (ErrorObj ''Error'' ''X'' stack) = LogError (msg_failed @ ''X'') (Stack stack)"
    by (simp_all add: log_failure_def)
  have report: "is_failure_report (log_failure e)" for e
    by (cases e) (simp_all add: log_failure_def)
  have main: "(case failure_of H F initializer cfg of
                Some error \<Rightarrow>
                  snd (bootstrap H F m arg third) = Exited 1
                  \<and> filter is_failure_report (fst (bootstrap H F m arg third)) =
                      [log_failure error, ProcessExit 1]
                  \<and> drop (length (fst (bootstrap H F m arg third)) - 2) (fst (bootstrap H F m arg third)) =
                      [log_failure error, ProcessExit 1]
              | None \<Rightarrow>
                  filter is_failure_report (fst (bootstrap H F m arg third)) = []
                  \<and> (snd (bootstrap H F m arg third) = Fulfilled \<or> snd (bootstrap H F m arg third) = Pending))
             \<and> (case call_configurator H cfg initializer of
                   Inl error \<Rightarrow> fst (bootstrap H F m arg third) =
                                 [Log msg_starting, log_failure error, ProcessExit 1]
                               \<and> (\<forall>c. Call c \<notin> set (fst (bootstrap H F m arg third)))
                 | Inr this \<Rightarrow> take (length (fst (listen F this [Log msg_starting])))
                                 (fst (bootstrap H F m arg third)) =
                               fst (listen F this [Log msg_starting]))"
  proof (cases "call_configurator H cfg initializer")
    case (Inl e)
    have "Call c \<noteq> log_failure e" for c
      by (cases e) (simp_all add: log_failure_def)
    with Inl show ?thesis
      by (auto simp: run failure_of_def report)
  next
    case (Inr this)
    obtain tr r where l: "listen F this [Log msg_starting] = (tr, r)"
      by (cases "listen F this [Log msg_starting]")
    with listen_reports_nothing [of F this] have none: "filter is_failure_report tr = []"
      by simp
    show ?thesis
    proof (cases r)
      case (Ok u)
      with Inr l none show ?thesis by (simp add: run failure_of_def)
    next
      case (Threw e)
      with Inr l none show ?thesis by (simp add: run failure_of_def report)
    next
      case Hung
      with Inr l none show ?thesis by (simp add: run failure_of_def)
    qed
  qed
  have sync: "call_configurator H (SyncFunction (map Invoke calls @ ThrowValue thrown_value # later)) builder =
             Inl thrown_value"
    by (rule sync_callback_throw)
  have scenario: "bootstrap H F m
              (ConfiguratorArg (SyncFunction (map Invoke calls @ ThrowValue (ErrorObj ''Error'' ''X'' stack) # later)))
              any =
             ([Log msg_starting, LogError (msg_failed @ ''X'') (Stack stack), ProcessExit 1], Exited 1)"
    using bootstrap_run [of "ConfiguratorArg (SyncFunction (map Invoke calls @
            ThrowValue (ErrorObj ''Error'' ''X'' stack) # later))"
          "SyncFunction (map Invoke calls @ ThrowValue (ErrorObj ''Error'' ''X'' stack) # later)"
          None a any H F m]
    by (simp add: run_body_throw log_failure_def)
  have async: "\<forall>e. call_configurator H (AsyncFunction body) builder \<noteq> Inl e"
    by simp
  from main forms sync scenario async show ?thesis
    unfolding Let_def initializer_def [symmetric] by blast
qed

theorem bootstrap_failure_handled_witness:
  "bootstrap mockHost mockNestApp ''MockAppModule''
     (ConfiguratorArg (SyncFunction [Invoke (OnPort (Num 8080)), ThrowValue (ErrorObj ''Error'' ''X'' None)]))
     None =
     ([Log msg_starting, LogError (msg_failed @ ''X'') (Stack None), ProcessExit 1], Exited 1)
   \<and> failure_of mockHost mockNestApp (new_AppInitializer mockHost ''MockAppModule'' None)
       (SyncFunction [Invoke (OnPort (Num 8080)), ThrowValue (ErrorObj ''Error'' ''X'' None)]) =
       Some (ErrorObj ''Error'' ''X'' None)
   \<and> snd (bootstrap mockHost failingPlugins ''MockAppModule''
       (AdapterArg (HttpAdapter ''fastify''))
       (Some (AsyncFunction [Invoke (WithPlugin (CustomPlugin ''Failing'')),
                             Invoke (WithGlobalPrefix ''api'')]))) = Exited 1
   \<and> filter is_failure_report (fst (bootstrap mockHost failingPlugins ''MockAppModule''
       (AdapterArg (HttpAdapter ''fastify''))
       (Some (AsyncFunction [Invoke (WithPlugin (CustomPlugin ''Failing'')),
                             Invoke (WithGlobalPrefix ''api'')])))) =
       [LogError (msg_failed @ ''plugin failed'') (Stack None), ProcessExit 1]"
  using bootstrap_failure_handled [where arg = "ConfiguratorArg (SyncFunction [Invoke (OnPort (Num 8080)),
            ThrowValue (ErrorObj ''Error'' ''X'' None)])"
          and cfg = "SyncFunction [Invoke (OnPort (Num 8080)), ThrowValue (ErrorObj ''Error'' ''X'' None)]"
          and ad = None and third = None and H = mockHost and F = mockNestApp
          and m = "''MockAppModule''"]
        bootstrap_failure_handled [where arg = "AdapterArg (HttpAdapter ''fastify'')"
          and cfg = "AsyncFunction [Invoke (WithPlugin (CustomPlugin ''Failing'')),
                                    Invoke (WithGlobalPrefix ''api'')]"
          and ad = "Some (HttpAdapter ''fastify'')" and a = "HttpAdapter ''fastify''"
          and third = "Some (AsyncFunction [Invoke (WithPlugin (CustomPlugin ''Failing'')),
                                            Invoke (WithGlobalPrefix ''api'')])"
          and H = mockHost and F = failingPlugins and m = "''MockAppModule''"]
  by (simp add: bootstrap_def failure_of_def log_failure_def mock_initializer
        withPlugin_def withGlobalPrefix_def onPort_def startsWith_slash_def
        listen_def apply_policies_def apply_plugin_def setup_swagger_def report_url_def
        emit_def ext_def skip_def and_then_def mockNestApp_def failingPlugins_def Let_def)

section \<open>The frame of the chained calls\<close>

lemma mutate_frame: "g \<noteq> target \<mu> \<Longrightarrow> same_field g this (mutate this \<mu>)"
  by (cases \<mu>; cases g; simp)

lemma mutate_set_twice:
  "is_set \<mu> \<Longrightarrow> is_set \<mu>' \<Longrightarrow> target \<mu> = target \<mu>' \<Longrightarrow> mutate (mutate this \<mu>') \<mu> = mutate this \<mu>"
  by (cases \<mu>; cases \<mu>'; (simp only: is_set.simps target.simps field.simps)?; simp)

lemma simple_call_one_mutation: "\<not> compound c \<Longrightarrow> length (mutations H c) = 1"
  by (cases c) (auto simp: createTypeOrmStarter_def Let_def split: option.splits)

lemma setters_last_wins:
  assumes "\<forall>d \<in> set (cs @ [c]). \<exists>\<mu>. mutations H d = [\<mu>] \<and> is_set \<mu> \<and> target \<mu> = f"
  shows "invoke_all H (cs @ [c]) this = invoke H c this"
  using assms
proof (induction cs arbitrary: this)
  case Nil
  then show ?case by simp
next
  case (Cons d cs)
  from Cons.prems obtain \<mu>d \<mu>c where
    d: "mutations H d = [\<mu>d]" "is_set \<mu>d" "target \<mu>d = f" and
    c: "mutations H c = [\<mu>c]" "is_set \<mu>c" "target \<mu>c = f"
    by auto
  have "invoke_all H ((d # cs) @ [c]) this = invoke H c (invoke H d this)"
    using Cons.IH [of "invoke H d this"] Cons.prems by simp
  also have "\<dots> = invoke H c this"
    using d c by (simp add: invoke_mutations(1) mutate_set_twice)
  finally show ?case .
qed

lemma chain_returns_this:
  "chain H cs this \<sigma> = (this, \<sigma>(this := invoke_all H cs (\<sigma> this)))"
  by (induction cs arbitrary: \<sigma>) (simp_all add: call_method_def)

lemma same_field_refl: "same_field g s s"
  by (cases g) simp_all

lemma same_field_trans: "same_field g s t \<Longrightarrow> same_field g t u \<Longrightarrow> same_field g s u"
  by (cases g) simp_all

lemma foldl_mutate_frame:
  "g \<notin> target ` set ms \<Longrightarrow> same_field g this (foldl mutate this ms)"
proof (induction ms arbitrary: this)
  case Nil
  show ?case by (simp add: same_field_refl)
next
  case (Cons \<mu> ms)
  then have "same_field g this (mutate this \<mu>)"
    and "same_field g (mutate this \<mu>) (foldl mutate (mutate this \<mu>) ms)"
    by (simp_all add: mutate_frame)
  then show ?case by (simp add: same_field_trans [of g this "mutate this \<mu>"])
qed

lemma migrating_run:
  "featureModules (invoke mockHost (WithTypeOrm migrating)
        (new_AppInitializer mockHost ''MockAppModule'' None)) =
       [TypeOrmModule_forRootAsync ''DATABASE_URL'' True []]"
  "plugins (invoke mockHost (WithTypeOrm migrating)
        (new_AppInitializer mockHost ''MockAppModule'' None)) = [TypeOrmMigrationPlugin]"
  by (simp_all add: mock_initializer withTypeOrm_def createTypeOrmStarter_def
          migrating_def withPlugin_def Let_def)

lemma two_fields_differ:
  assumes "\<not> same_field F_featureModules s t" and "\<not> same_field F_plugins s t"
  shows "\<not> (\<exists>f. \<forall>g. g \<noteq> f \<longrightarrow> same_field g s t)"
proof
  assume "\<exists>f. \<forall>g. g \<noteq> f \<longrightarrow> same_field g s t"
  then obtain f where f: "\<And>g. g \<noteq> f \<Longrightarrow> same_field g s t" by blast
  show False
  proof (cases "f = F_plugins")
    case True
    then have "F_featureModules \<noteq> f" by simp
    then have "same_field F_featureModules s t" by (rule f)
    with assms show False by simp
  next
    case False
    then have "F_plugins \<noteq> f" by simp
    then have "same_field F_plugins s t" by (rule f)
    with assms show False by simp
  qed
qed

text \<open>
  Claim C4, as stated, fails: \<open>withTypeOrm\<close> with \<open>runMigrationsOnStartup\<close> appends the
  module of the starter to \<open>featureModules\<close> and the migration plugin to \<open>plugins\<close>, so
  no single field accounts for what the call changed.
\<close>

theorem typeorm_with_migrations_writes_two_fields:
  "featureModules (new_AppInitializer mockHost ''MockAppModule'' None) = []
   \<and> plugins (new_AppInitializer mockHost ''MockAppModule'' None) = []
   \<and> featureModules (invoke mockHost (WithTypeOrm migrating)
        (new_AppInitializer mockHost ''MockAppModule'' None)) =
       [TypeOrmModule_forRootAsync ''DATABASE_URL'' True []]
   \<and> plugins (invoke mockHost (WithTypeOrm migrating)
        (new_AppInitializer mockHost ''MockAppModule'' None)) = [TypeOrmMigrationPlugin]
   \<and> \<not> (\<exists>f. \<forall>g. g \<noteq> f \<longrightarrow>
          same_field g (new_AppInitializer mockHost ''MockAppModule'' None)
            (invoke mockHost (WithTypeOrm migrating)
               (new_AppInitializer mockHost ''MockAppModule'' None)))"
proof -
  have before: "featureModules (new_AppInitializer mockHost ''MockAppModule'' None) = []"
    "plugins (new_AppInitializer mockHost ''MockAppModule'' None) = []"
    by (simp_all add: mock_initializer)
  have "\<not> (\<exists>f. \<forall>g. g \<noteq> f \<longrightarrow>
          same_field g (new_AppInitializer mockHost ''MockAppModule'' None)
            (invoke mockHost (WithTypeOrm migrating)
               (new_AppInitializer mockHost ''MockAppModule'' None)))"
    by (rule two_fields_differ) (simp_all only: same_field.simps before migrating_run, simp_all)
  with before migrating_run show ?thesis by (simp only: simp_thms)
qed

text \<open>
  Claim C4, amended. Every chained call performs a sequence of elementary mutations
  and returns the builder it was called on. An elementary mutation sets one scalar
  field or appends one entry to one sequence and leaves every other field unchanged.
  Every call performs exactly one mutation, except \<open>withTypeOrm\<close> with
  \<open>runMigrationsOnStartup\<close> (the module, then the migration plugin), the two presets
  (the mutations of the primitive calls they make) and \<open>when\<close> (the mutations of its
  callback when the condition holds, none otherwise); a call leaves unchanged every
  field that none of its mutations writes. Setters of one scalar field called one after
  the other leave the effect of the last call alone; the sequences keep all the
  entries that the calls appended, in the order of the calls.
\<close>

theorem chained_calls_frame:
  "invoke H c this = foldl mutate this (mutations H c)
   \<and> (\<forall>\<mu> s g. g \<noteq> target \<mu> \<longrightarrow> same_field g s (mutate s \<mu>))
   \<and> (\<forall>g. g \<notin> target ` set (mutations H c) \<longrightarrow> same_field g this (invoke H c this))
   \<and> (\<not> compound c \<longrightarrow>
        (\<exists>\<mu>. mutations H c = [\<mu>] \<and> invoke H c this = mutate this \<mu>
           \<and> (\<forall>g. g \<noteq> target \<mu> \<longrightarrow> same_field g this (invoke H c this))))
   \<and> mutations H (WithTypeOrm opts) =
        PushModule (starter_module (createTypeOrmStarter opts)) #
        (if runMigrationsOnStartup opts = Some True then [PushPlugin TypeOrmMigrationPlugin] else [])
   \<and> mutations H (UseDevelopmentDefaults sw) =
        mutations_all H [WithSwagger (sw\<lparr>path := Some ''docs''\<rparr>), WithPlugin RequestLoggerPlugin]
   \<and> mutations H UseProductionDefaults =
        mutations_all H [UseHelmet, EnableCompression, WithGracefulShutdown,
                         WithPlugin (new_RateLimiterPlugin [])]
   \<and> mutations H (When condition configure) = (if condition then mutations_all H configure else [])
   \<and> ((\<forall>d \<in> set (cs @ [c']). \<exists>\<mu>. mutations H d = [\<mu>] \<and> is_set \<mu> \<and> target \<mu> = f) \<longrightarrow>
        invoke_all H (cs @ [c']) this = invoke H c' this)
   \<and> setupFunctions (invoke_all H cs this) = setupFunctions this @ pushed_setups (mutations_all H cs)
   \<and> plugins (invoke_all H cs this) = plugins this @ pushed_plugins (mutations_all H cs)
   \<and> featureModules (invoke_all H cs this) = featureModules this @ pushed_modules (mutations_all H cs)
   \<and> globalProviders (invoke_all H cs this) = globalProviders this @ pushed_providers (mutations_all H cs)
   \<and> globalInterceptors (invoke_all H cs this) =
        globalInterceptors this @ pushed_interceptors (mutations_all H cs)
   \<and> call_method H c r \<sigma> = (r, \<sigma>(r := invoke H c (\<sigma> r)))
   \<and> chain H cs r \<sigma> = (r, \<sigma>(r := invoke_all H cs (\<sigma> r)))"
proof -
  have a: "invoke H c this = foldl mutate this (mutations H c)"
    by (rule invoke_mutations)
  have b: "\<forall>\<mu> s g. g \<noteq> target \<mu> \<longrightarrow> same_field g s (mutate s \<mu>)"
    by (simp add: mutate_frame)
  have c: "\<forall>g. g \<notin> target ` set (mutations H c) \<longrightarrow> same_field g this (invoke H c this)"
    unfolding a by (simp add: foldl_mutate_frame)
  have d: "\<not> compound c \<longrightarrow>
        (\<exists>\<mu>. mutations H c = [\<mu>] \<and> invoke H c this = mutate this \<mu>
           \<and> (\<forall>g. g \<noteq> target \<mu> \<longrightarrow> same_field g this (invoke H c this)))"
  proof
    assume "\<not> compound c"
    then have "length (mutations H c) = 1" by (rule simple_call_one_mutation)
    then obtain \<mu> where \<mu>: "mutations H c = [\<mu>]"
      by (cases "mutations H c") auto
    then show "\<exists>\<mu>. mutations H c = [\<mu>] \<and> invoke H c this = mutate this \<mu>
           \<and> (\<forall>g. g \<noteq> target \<mu> \<longrightarrow> same_field g this (invoke H c this))"
      by (simp add: a mutate_frame)
  qed
  have e: "mutations H (WithTypeOrm opts) =
        PushModule (starter_module (createTypeOrmStarter opts)) #
        (if runMigrationsOnStartup opts = Some True then [PushPlugin TypeOrmMigrationPlugin] else [])"
    by (auto simp: createTypeOrmStarter_def Let_def split: option.splits)
  have f: "mutations H (UseDevelopmentDefaults sw) =
        mutations_all H [WithSwagger (sw\<lparr>path := Some ''docs''\<rparr>), WithPlugin RequestLoggerPlugin]"
    "mutations H UseProductionDefaults =
        mutations_all H [UseHelmet, EnableCompression, WithGracefulShutdown,
                         WithPlugin (new_RateLimiterPlugin [])]"
    "mutations H (When condition configure) = (if condition then mutations_all H configure else [])"
    by simp_all
  have g: "(\<forall>d \<in> set (cs @ [c']). \<exists>\<mu>. mutations H d = [\<mu>] \<and> is_set \<mu> \<and> target \<mu> = f) \<longrightarrow>
        invoke_all H (cs @ [c']) this = invoke H c' this"
    using setters_last_wins [of cs c' H f this] by blast
  have h: "setupFunctions (invoke_all H cs this) = setupFunctions this @ pushed_setups (mutations_all H cs)"
    "plugins (invoke_all H cs this) = plugins this @ pushed_plugins (mutations_all H cs)"
    "featureModules (invoke_all H cs this) = featureModules this @ pushed_modules (mutations_all H cs)"
    "globalProviders (invoke_all H cs this) = globalProviders this @ pushed_providers (mutations_all H cs)"
    "globalInterceptors (invoke_all H cs this) =
        globalInterceptors this @ pushed_interceptors (mutations_all H cs)"
    unfolding invoke_mutations foldl_mutate_fields by (rule refl)+
  have i: "call_method H c r \<sigma> = (r, \<sigma>(r := invoke H c (\<sigma> r)))"
    "chain H cs r \<sigma> = (r, \<sigma>(r := invoke_all H cs (\<sigma> r)))"
    by (simp_all add: call_method_def chain_returns_this)
  from a b c d e f g h i show ?thesis by (simp only: simp_thms)
qed


theorem chained_calls_frame_witness:
  "\<not> compound (OnPort (Num 8080))
   \<and> mutations mockHost (OnPort (Num 8080)) = [SetPort (Num 8080)]
   \<and> invoke_all mockHost ([OnPort (Num 1), OnPort (Num 2)] @ [OnPort (Num 8080)])
        (new_AppInitializer mockHost ''MockAppModule'' None) =
      invoke mockHost (OnPort (Num 8080)) (new_AppInitializer mockHost ''MockAppModule'' None)
   \<and> port (invoke_all mockHost ([OnPort (Num 1), OnPort (Num 2)] @ [OnPort (Num 8080)])
        (new_AppInitializer mockHost ''MockAppModule'' None)) = Num 8080
   \<and> same_field F_plugins (new_AppInitializer mockHost ''MockAppModule'' None)
        (invoke mockHost (OnPort (Num 8080)) (new_AppInitializer mockHost ''MockAppModule'' None))
   \<and> plugins (invoke_all mockHost [OnPort (Num 1), OnPort (Num 2)]
        (new_AppInitializer mockHost ''MockAppModule'' None)) = []"
  using chained_calls_frame [where H = mockHost and c = "OnPort (Num 8080)"
          and this = "new_AppInitializer mockHost ''MockAppModule'' None"
          and cs = "[OnPort (Num 1), OnPort (Num 2)]" and c' = "OnPort (Num 8080)" and f = F_port]
  by (simp add: mock_initializer onPort_def)

end
